theory Spec2Isabelle
  imports Main "HOL-Library.Word"
begin

unbundle bit_operations_syntax

section \<open>Protocol catalog\<close>

text \<open>
  \<^verbatim>\<open>enum sysfs_protocols\<close>: a C enumeration used as a bit mask.  All enumerators are
  non-negative and \<^verbatim>\<open>~0\<close> is returned for ``all'', so the value is a 32-bit unsigned word.
\<close>

type_synonym sysfs_protocols = "32 word"

definition SYSFS_UNKNOWN :: sysfs_protocols where "SYSFS_UNKNOWN = push_bit 0 1"
definition SYSFS_OTHER :: sysfs_protocols where "SYSFS_OTHER = push_bit 1 1"
definition SYSFS_LIRC :: sysfs_protocols where "SYSFS_LIRC = push_bit 2 1"
definition SYSFS_RC5 :: sysfs_protocols where "SYSFS_RC5 = push_bit 3 1"
definition SYSFS_RC5_SZ :: sysfs_protocols where "SYSFS_RC5_SZ = push_bit 4 1"
definition SYSFS_JVC :: sysfs_protocols where "SYSFS_JVC = push_bit 5 1"
definition SYSFS_SONY :: sysfs_protocols where "SYSFS_SONY = push_bit 6 1"
definition SYSFS_NEC :: sysfs_protocols where "SYSFS_NEC = push_bit 7 1"
definition SYSFS_SANYO :: sysfs_protocols where "SYSFS_SANYO = push_bit 8 1"
definition SYSFS_MCE_KBD :: sysfs_protocols where "SYSFS_MCE_KBD = push_bit 9 1"
definition SYSFS_RC6 :: sysfs_protocols where "SYSFS_RC6 = push_bit 10 1"
definition SYSFS_SHARP :: sysfs_protocols where "SYSFS_SHARP = push_bit 11 1"
definition SYSFS_XMP :: sysfs_protocols where "SYSFS_XMP = push_bit 12 1"
definition SYSFS_CEC :: sysfs_protocols where "SYSFS_CEC = push_bit 13 1"
definition SYSFS_IMON :: sysfs_protocols where "SYSFS_IMON = push_bit 14 1"
definition SYSFS_RCMM :: sysfs_protocols where "SYSFS_RCMM = push_bit 15 1"
definition SYSFS_XBOX_DVD :: sysfs_protocols where "SYSFS_XBOX_DVD = push_bit 16 1"
definition SYSFS_INVALID :: sysfs_protocols where "SYSFS_INVALID = 0"

named_theorems sysfs_defs \<open>numeric values of the protocol bits\<close>

lemmas sysfs_protocols_values [sysfs_defs] =
  SYSFS_UNKNOWN_def SYSFS_OTHER_def SYSFS_LIRC_def SYSFS_RC5_def SYSFS_RC5_SZ_def
  SYSFS_JVC_def SYSFS_SONY_def SYSFS_NEC_def SYSFS_SANYO_def SYSFS_MCE_KBD_def
  SYSFS_RC6_def SYSFS_SHARP_def SYSFS_XMP_def SYSFS_CEC_def SYSFS_IMON_def
  SYSFS_RCMM_def SYSFS_XBOX_DVD_def SYSFS_INVALID_def

text \<open>\<^verbatim>\<open>struct protocol_map_entry\<close>; a \<^verbatim>\<open>NULL\<close> \<^verbatim>\<open>sysfs1_name\<close> is \<open>None\<close>.\<close>

record protocol_map_entry =
  pme_name :: string
  pme_sysfs1_name :: "string option"
  pme_sysfs_protocol :: sysfs_protocols

definition pme :: "string \<Rightarrow> string option \<Rightarrow> sysfs_protocols \<Rightarrow> protocol_map_entry" where
  "pme n s p = \<lparr>pme_name = n, pme_sysfs1_name = s, pme_sysfs_protocol = p\<rparr>"

text \<open>The table \<^verbatim>\<open>protocol_map\<close>; the terminating all-\<^verbatim>\<open>NULL\<close> entry is the end of the list.\<close>

definition protocol_map :: "protocol_map_entry list" where
  "protocol_map =
    [ pme ''unknown'' None SYSFS_UNKNOWN,
      pme ''other'' None SYSFS_OTHER,
      pme ''lirc'' None SYSFS_LIRC,
      pme ''rc-5'' (Some ''/rc5_decoder'') SYSFS_RC5,
      pme ''rc-5x'' None SYSFS_INVALID,
      pme ''rc-5-sz'' None SYSFS_RC5_SZ,
      pme ''jvc'' (Some ''/jvc_decoder'') SYSFS_JVC,
      pme ''sony'' (Some ''/sony_decoder'') SYSFS_SONY,
      pme ''sony12'' None SYSFS_INVALID,
      pme ''sony15'' None SYSFS_INVALID,
      pme ''sony20'' None SYSFS_INVALID,
      pme ''nec'' (Some ''/nec_decoder'') SYSFS_NEC,
      pme ''sanyo'' None SYSFS_SANYO,
      pme ''mce_kbd'' None SYSFS_MCE_KBD,
      pme ''rc-6'' (Some ''/rc6_decoder'') SYSFS_RC6,
      pme ''rc-6-0'' None SYSFS_INVALID,
      pme ''rc-6-6a-20'' None SYSFS_INVALID,
      pme ''rc-6-6a-24'' None SYSFS_INVALID,
      pme ''rc-6-6a-32'' None SYSFS_INVALID,
      pme ''rc-6-mce'' None SYSFS_INVALID,
      pme ''sharp'' None SYSFS_SHARP,
      pme ''xmp'' (Some ''/xmp_decoder'') SYSFS_XMP,
      pme ''cec'' None SYSFS_CEC,
      pme ''imon'' None SYSFS_IMON,
      pme ''rc-mm'' None SYSFS_RCMM,
      pme ''xbox-dvd'' None SYSFS_XBOX_DVD ]"

subsection \<open>Character helpers of the C library\<close>

text \<open>\<^verbatim>\<open>tolower\<close> in the C locale: the 26 upper-case ASCII letters are mapped, nothing else.\<close>

definition tolower :: "char \<Rightarrow> char" where
  "tolower c =
     (case map_of (zip ''ABCDEFGHIJKLMNOPQRSTUVWXYZ'' ''abcdefghijklmnopqrstuvwxyz'') c of
        Some l \<Rightarrow> l
      | None \<Rightarrow> c)"

text \<open>\<^verbatim>\<open>strcasecmp(a, b) == 0\<close>.\<close>

definition strcasecmp_eq :: "string \<Rightarrow> string \<Rightarrow> bool" where
  "strcasecmp_eq a b \<longleftrightarrow> map tolower a = map tolower b"

definition is_sep :: "char \<Rightarrow> bool" where
  "is_sep c \<longleftrightarrow> c = CHR ''-'' \<or> c = CHR ''_''"

text \<open>
  One \<^verbatim>\<open>if (*a == '-' || *a == '_') a++;\<close> step.  The argument is the rest of the string
  at the pointer and is not empty (the loop condition has just been checked).
\<close>

fun skip_sep :: "string \<Rightarrow> string" where
  "skip_sep [] = []"
| "skip_sep (c # cs) = (if is_sep c then cs else c # cs)"

lemma length_skip_sep: "length (skip_sep s) \<le> length s"
  by (cases s) auto

text \<open>
  \<^verbatim>\<open>protocol_like\<close>.  A string is the list of its characters before the terminating NUL.
  When the skipping step leaves both pointers on the terminator, the characters compare
  equal (both NUL) and both pointers are incremented past the end of their strings; the
  next loop test would read out of bounds.  That case is \<open>None\<close>.
\<close>

function protocol_like :: "string \<Rightarrow> string \<Rightarrow> bool option" where
  "protocol_like [] b = Some (b = [])"
| "protocol_like (x # xs) [] = Some False"
| "protocol_like (x # xs) (y # ys) =
     (case (skip_sep (x # xs), skip_sep (y # ys)) of
        ([], []) \<Rightarrow> None
      | ([], d # ds) \<Rightarrow> Some False
      | (c # cs, []) \<Rightarrow> Some False
      | (c # cs, d # ds) \<Rightarrow>
          if tolower c \<noteq> tolower d then Some False else protocol_like cs ds)"
  by pat_completeness auto
termination
  by (relation "measure (\<lambda>(a, b). length a)") (auto split: if_splits)

text \<open>
  \<^verbatim>\<open>parse_sysfs_protocol\<close>: the loop over the table returns the bits of the first entry
  whose name is \<^verbatim>\<open>protocol_like\<close> the argument.
\<close>

fun parse_loop :: "string \<Rightarrow> protocol_map_entry list \<Rightarrow> sysfs_protocols option" where
  "parse_loop name [] = Some SYSFS_INVALID"
| "parse_loop name (e # es) =
     (case protocol_like name (pme_name e) of
        None \<Rightarrow> None
      | Some True \<Rightarrow> Some (pme_sysfs_protocol e)
      | Some False \<Rightarrow> parse_loop name es)"

definition parse_sysfs_protocol :: "string option \<Rightarrow> bool \<Rightarrow> sysfs_protocols option" where
  "parse_sysfs_protocol name all_allowed =
     (case name of
        None \<Rightarrow> Some SYSFS_INVALID
      | Some n \<Rightarrow>
          if all_allowed \<and> strcasecmp_eq n ''all'' then Some (NOT 0)
          else parse_loop n protocol_map)"

text \<open>
  \<^verbatim>\<open>fprintf(fp, fmt, s)\<close> for a format with one \<^verbatim>\<open>%s\<close> conversion (the only formats the
  program passes are \<^verbatim>\<open>"%s "\<close> and \<^verbatim>\<open>"+%s\n"\<close>): the text sent to the stream.
\<close>

fun fprintf_s :: "string \<Rightarrow> string \<Rightarrow> string" where
  "fprintf_s (c # d # r) s =
     (if c = CHR ''%'' \<and> d = CHR ''s'' then s @ r else c # fprintf_s (d # r) s)"
| "fprintf_s r s = r"

text \<open>
  \<^verbatim>\<open>write_sysfs_protocols\<close>: the text sent to \<^verbatim>\<open>fp\<close>.  An entry whose bits are all clear
  in the working copy is passed over; a printed entry's bits are cleared from the copy.
\<close>

fun write_loop :: "sysfs_protocols \<Rightarrow> string \<Rightarrow> protocol_map_entry list \<Rightarrow> string" where
  "write_loop protocols fmt [] = []"
| "write_loop protocols fmt (e # es) =
     (if protocols AND pme_sysfs_protocol e = 0 then write_loop protocols fmt es
      else fprintf_s fmt (pme_name e) @
           write_loop (protocols AND NOT (pme_sysfs_protocol e)) fmt es)"

definition write_sysfs_protocols :: "sysfs_protocols \<Rightarrow> string \<Rightarrow> string" where
  "write_sysfs_protocols protocols fmt = write_loop protocols fmt protocol_map"

subsection \<open>Notions used to state the properties of the catalog\<close>

text \<open>
  Two names are variants of each other up to separators and letter case when they agree
  after all \<^verbatim>\<open>-\<close> and \<^verbatim>\<open>_\<close> characters are deleted and the rest is lower-cased.
\<close>

definition canon :: "string \<Rightarrow> string" where
  "canon s = map tolower (filter (\<lambda>c. \<not> is_sep c) s)"

text \<open>Every separator is directly followed by a character that is not a separator.\<close>

fun well_separated :: "string \<Rightarrow> bool" where
  "well_separated [] = True"
| "well_separated [c] = (\<not> is_sep c)"
| "well_separated (c # d # r) = ((is_sep c \<longrightarrow> \<not> is_sep d) \<and> well_separated (d # r))"

definition zero_bit_aliases :: "string list" where
  "zero_bit_aliases =
     [''rc-5x'', ''sony12'', ''sony15'', ''sony20'', ''rc-6-0'', ''rc-6-6a-20'',
      ''rc-6-6a-24'', ''rc-6-6a-32'', ''rc-6-mce'']"

section \<open>C library functions used by the program\<close>

text \<open>
  Strings are lists of the characters before the terminating NUL.  File contents are
  text without NUL characters.
\<close>

definition newline :: char where
  "newline = CHR 0x0A"

text \<open>\<^verbatim>\<open>strstr(haystack, needle) != NULL\<close>.\<close>

fun strstr :: "string \<Rightarrow> string \<Rightarrow> bool" where
  "strstr [] n = (n = [])"
| "strstr (c # cs) n = (take (length n) (c # cs) = n \<or> strstr cs n)"

text \<open>\<^verbatim>\<open>strncmp(s, prefix, strlen(prefix)) == 0\<close>.\<close>

definition strncmp_prefix :: "string \<Rightarrow> string \<Rightarrow> bool" where
  "strncmp_prefix s pre \<longleftrightarrow> take (length pre) s = pre"

text \<open>
  \<^verbatim>\<open>fgets(buf, size, fp)\<close> on the unread rest of a stream: \<open>None\<close> at end of file,
  otherwise the line read (through the first newline, at most \<open>sz - 1\<close> characters)
  and the rest of the stream.
\<close>

definition fgets :: "nat \<Rightarrow> string \<Rightarrow> (string \<times> string) option" where
  "fgets sz s =
     (if s = [] then None
      else let k = min (sz - 1) (Suc (length (takeWhile (\<lambda>c. c \<noteq> newline) s)))
           in Some (take k s, drop k s))"

text \<open>
  \<^verbatim>\<open>strtok\<close>: leading delimiters are skipped; \<open>None\<close> when nothing is left; otherwise the
  token and the position saved for the next call (after the delimiter that ended the
  token).  \<^verbatim>\<open>strtok(s, d)\<close> is \<open>strtok d s\<close>, and \<^verbatim>\<open>strtok(NULL, d)\<close> is \<open>strtok d\<close> of the
  saved position.
\<close>

definition strtok :: "string \<Rightarrow> string \<Rightarrow> (string \<times> string) option" where
  "strtok delim s =
     (let s' = dropWhile (\<lambda>c. c \<in> set delim) s
      in if s' = [] then None
         else Some (takeWhile (\<lambda>c. c \<notin> set delim) s',
                    drop 1 (dropWhile (\<lambda>c. c \<notin> set delim) s')))"

lemma strtok_shorter: "strtok delim s = Some (t, r) \<Longrightarrow> length r < length s"
proof -
  assume a: "strtok delim s = Some (t, r)"
  let ?s' = "dropWhile (\<lambda>c. c \<in> set delim) s"
  from a have ne: "?s' \<noteq> []" and r: "r = drop 1 (dropWhile (\<lambda>c. c \<notin> set delim) ?s')"
    by (auto simp: strtok_def Let_def split: if_splits)
  from ne obtain x l where s': "?s' = x # l" by (cases ?s') auto
  from hd_dropWhile [OF ne] s' have "x \<notin> set delim" by simp
  with s' have "dropWhile (\<lambda>c. c \<notin> set delim) ?s' = dropWhile (\<lambda>c. c \<notin> set delim) l"
    by simp
  then have "length r \<le> length l"
    using r length_dropWhile_le [of "\<lambda>c. c \<notin> set delim" l] by simp
  moreover have "length ?s' \<le> length s" by (rule length_dropWhile_le)
  ultimately show ?thesis using s' by simp
qed

text \<open>The tokens of \<^verbatim>\<open>for (p = strtok(buf, d); p; p = strtok(NULL, d))\<close>.\<close>

function strtok_all :: "string \<Rightarrow> string \<Rightarrow> string list" where
  "strtok_all delim s =
     (case strtok delim s of None \<Rightarrow> [] | Some (t, r) \<Rightarrow> t # strtok_all delim r)"
  by pat_completeness auto
termination
  by (relation "measure (\<lambda>(delim, s). length s)") (auto dest: strtok_shorter)

declare strtok_all.simps [simp del]

definition isspace :: "char \<Rightarrow> bool" where
  "isspace c \<longleftrightarrow> c \<in> set [CHR '' '', CHR 0x09, CHR 0x0A, CHR 0x0B, CHR 0x0C, CHR 0x0D]"

definition digit_val :: "char \<Rightarrow> nat option" where
  "digit_val c =
     map_of (zip ''0123456789abcdefghijklmnopqrstuvwxyz'' [0 ..< 36] @
             zip ''ABCDEFGHIJKLMNOPQRSTUVWXYZ'' [10 ..< 36]) c"

definition is_digit :: "nat \<Rightarrow> char \<Rightarrow> bool" where
  "is_digit base c = (case digit_val c of None \<Rightarrow> False | Some d \<Rightarrow> d < base)"

definition LONG_MAX :: int where "LONG_MAX = 2 ^ 63 - 1"
definition LONG_MIN :: int where "LONG_MIN = - (2 ^ 63)"
definition EINVAL :: int where "EINVAL = 22"

text \<open>
  \<^verbatim>\<open>strtol(nptr, &endptr, base)\<close> for \<open>base\<close> 0 or 10 on a machine with 64-bit \<^verbatim>\<open>long\<close>:
  the value, the string at \<^verbatim>\<open>endptr\<close>, and whether \<^verbatim>\<open>errno\<close> is set to \<^verbatim>\<open>ERANGE\<close>.
  Without digits the value is 0 and \<^verbatim>\<open>endptr\<close> is \<^verbatim>\<open>nptr\<close>.
\<close>

definition strtol :: "string \<Rightarrow> nat \<Rightarrow> int \<times> string \<times> bool" where
  "strtol nptr base =
     (let s1 = dropWhile isspace nptr;
          neg = (take 1 s1 = ''-'');
          s2 = (if take 1 s1 = ''-'' \<or> take 1 s1 = ''+'' then drop 1 s1 else s1);
          hex = (base = 0 \<and> (take 2 s2 = ''0x'' \<or> take 2 s2 = ''0X'') \<and>
                 (case drop 2 s2 of [] \<Rightarrow> False | c # _ \<Rightarrow> is_digit 16 c));
          b = (if base \<noteq> 0 then base else if hex then 16
               else if take 1 s2 = ''0'' then 8 else 10);
          s3 = (if hex then drop 2 s2 else s2);
          ds = takeWhile (is_digit b) s3;
          v = foldl (\<lambda>a c. a * int b + int (the (digit_val c))) 0 ds;
          sv = (if neg then - v else v)
      in if ds = [] then (0, nptr, False)
         else if sv > LONG_MAX then (LONG_MAX, drop (length ds) s3, True)
         else if sv < LONG_MIN then (LONG_MIN, drop (length ds) s3, True)
         else (sv, drop (length ds) s3, False))"

text \<open>
  \<^verbatim>\<open>atoi(s)\<close>, which is \<^verbatim>\<open>(int) strtol(s, NULL, 10)\<close>: the \<^verbatim>\<open>long\<close> is cut to 32 bits.
\<close>

definition atoi :: "string \<Rightarrow> 32 word" where
  "atoi s = word_of_int (fst (strtol s 10))"

lemma fgets_shorter: "fgets (Suc (Suc n)) s = Some (l, r) \<Longrightarrow> length r < length s"
  by (auto simp: fgets_def Let_def min_def split: if_splits)

section \<open>Data of the program\<close>

text \<open>\<^verbatim>\<open>enum rc_type\<close> and \<^verbatim>\<open>enum sysfs_ver\<close>.\<close>

datatype rc_type = UNKNOWN_TYPE | SOFTWARE_DECODER | HARDWARE_DECODER

datatype sysfs_ver = VERSION_1 | VERSION_2

text \<open>\<^verbatim>\<open>struct rc_device\<close>; a \<^verbatim>\<open>NULL\<close> string is \<open>None\<close>.\<close>

record rc_device =
  rc_sysfs_name :: string
  rc_input_name :: "string option"
  rc_lirc_name :: "string option"
  rc_drv_name :: "string option"
  rc_dev_name :: "string option"
  rc_keytable_name :: "string option"
  rc_version :: sysfs_ver
  rc_type :: rc_type
  rc_supported :: sysfs_protocols
  rc_current :: sysfs_protocols

text \<open>\<^verbatim>\<open>struct keytable_entry\<close>: a list cell; the table is the list of cells from its head.\<close>

record keytable_entry =
  ke_scancode :: "64 word"
  ke_keycode :: "32 word"

text \<open>
  The declarations of \<^verbatim>\<open>struct protocol_param\<close>, \<^verbatim>\<open>struct scancode_entry\<close>,
  \<^verbatim>\<open>struct raw_entry\<close> and \<^verbatim>\<open>struct keymap\<close> are in \<^verbatim>\<open>keymap.h\<close>, which is not among the
  sources.  The records have the fields the functions below read and write; a parameter
  value is a \<^verbatim>\<open>long\<close> (printed with \<^verbatim>\<open>%ld\<close>), scancodes are 64-bit.
\<close>

record protocol_param =
  pp_name :: string
  pp_value :: "64 word"


record raw_entry =
  re_scancode :: "64 word"
  re_keycode :: string
  re_raw :: "32 word list"


text \<open>\<^verbatim>\<open>struct bpf_protocol\<close>.\<close>

record bpf_protocol =
  bp_param :: "protocol_param list"
  bp_name :: string

text \<open>
  The file-scope variables the modelled functions use.  \<^verbatim>\<open>raw_scancode\<close> and
  \<^verbatim>\<open>input_protocol_version\<close> are \<^verbatim>\<open>int\<close>: 32-bit words read in two's complement.
  The linked lists \<^verbatim>\<open>keytable\<close>, \<^verbatim>\<open>rawtable\<close> and \<^verbatim>\<open>bpf_protocol\<close> are lists from their head
  (the most recently added cell first).
\<close>

record globals =
  g_raw_scancode :: "32 word"
  g_keytable :: "keytable_entry list"
  g_rawtable :: "raw_entry list"
  g_ch_proto :: sysfs_protocols
  g_bpf_protocol :: "bpf_protocol list"
  g_input_protocol_version :: "32 word"
  g_errno :: int

section \<open>BPF decoder requests\<close>

text \<open>\<^verbatim>\<open>compare_parameters\<close>: every parameter of \<open>a\<close> has a cell of \<open>b\<close> with its name and value.\<close>

fun compare_parameters :: "protocol_param list \<Rightarrow> protocol_param list \<Rightarrow> bool" where
  "compare_parameters [] b = True"
| "compare_parameters (x # a) b =
     (if list_ex (\<lambda>b2. pp_name x = pp_name b2 \<and> pp_value x = pp_value b2) b
      then compare_parameters a b else False)"

text \<open>
  The loop of \<^verbatim>\<open>add_bpf_protocol\<close>: \<open>True\<close> when it leaves the function through the
  \<^verbatim>\<open>return\<close> (an equivalent request is registered).
\<close>

fun bpf_protocol_found :: "bpf_protocol \<Rightarrow> bpf_protocol list \<Rightarrow> bool" where
  "bpf_protocol_found new [] = False"
| "bpf_protocol_found new (a # as) =
     (if bp_name a \<noteq> bp_name new then bpf_protocol_found new as
      else if compare_parameters (bp_param a) (bp_param new) \<and>
              compare_parameters (bp_param new) (bp_param a) then True
      else bpf_protocol_found new as)"

definition add_bpf_protocol :: "bpf_protocol \<Rightarrow> bpf_protocol list \<Rightarrow> bpf_protocol list" where
  "add_bpf_protocol new bpf = (if bpf_protocol_found new bpf then bpf else new # bpf)"

text \<open>
  \<^verbatim>\<open>load_bpf_for_unsupported\<close>: the returned mask and the list \<^verbatim>\<open>bpf_protocol\<close> afterwards.
\<close>

fun load_bpf_loop ::
  "protocol_map_entry list \<Rightarrow> sysfs_protocols \<Rightarrow> sysfs_protocols \<Rightarrow> bpf_protocol list \<Rightarrow>
   sysfs_protocols \<times> bpf_protocol list" where
  "load_bpf_loop [] protocols supported bpf = (protocols, bpf)"
| "load_bpf_loop (e # es) protocols supported bpf =
     (if pme_sysfs_protocol e \<noteq> SYSFS_XBOX_DVD then load_bpf_loop es protocols supported bpf
      else if protocols AND pme_sysfs_protocol e = 0 \<or> supported AND pme_sysfs_protocol e \<noteq> 0
      then load_bpf_loop es protocols supported bpf
      else load_bpf_loop es (protocols AND NOT (pme_sysfs_protocol e)) supported
             (add_bpf_protocol \<lparr>bp_param = [], bp_name = pme_name e\<rparr> bpf))"

definition load_bpf_for_unsupported ::
  "sysfs_protocols \<Rightarrow> sysfs_protocols \<Rightarrow> globals \<Rightarrow> sysfs_protocols \<times> globals" where
  "load_bpf_for_unsupported protocols supported g =
     (case load_bpf_loop protocol_map protocols supported (g_bpf_protocol g) of
        (protocols', bpf') \<Rightarrow> (protocols', g\<lparr>g_bpf_protocol := bpf'\<rparr>))"

section \<open>Keytable store\<close>








text \<open>The state of the variables when the program starts.\<close>

definition initial_globals :: globals where
  "initial_globals =
     \<lparr>g_raw_scancode = 0, g_keytable = [], g_rawtable = [], g_ch_proto = 0,
      g_bpf_protocol = [], g_input_protocol_version = 0, g_errno = 0\<rparr>"

section \<open>The kernel interfaces\<close>

text \<open>
  What the program can observe of sysfs and what it sends to it, by path:
  the entries \<^verbatim>\<open>readdir\<close> lists for a directory (\<open>None\<close>: \<^verbatim>\<open>opendir\<close> fails), the text a file
  opened for reading delivers (\<open>None\<close>: \<^verbatim>\<open>fopen\<close> fails), the \<^verbatim>\<open>st_mode\<close> of \<^verbatim>\<open>stat\<close>
  (\<open>None\<close>: \<^verbatim>\<open>stat\<close> fails), the \<^verbatim>\<open>errno\<close> of \<^verbatim>\<open>fopen(path, "w")\<close> and of \<^verbatim>\<open>fclose\<close> (0 for
  success), and the text written to a file through a stream opened with \<^verbatim>\<open>"w"\<close>
  (\<open>None\<close>: never opened for writing).  After a failure the functions call \<^verbatim>\<open>perror\<close>
  and return \<^verbatim>\<open>errno\<close> as it is then: \<open>fs_perror\<close> gives the value of \<^verbatim>\<open>errno\<close> after
  \<^verbatim>\<open>perror\<close> from its value before.
\<close>

record sysfs =
  fs_dir :: "string \<Rightarrow> string list option"
  fs_file :: "string \<Rightarrow> string option"
  fs_mode :: "string \<Rightarrow> 32 word option"
  fs_wopen :: "string \<Rightarrow> int"
  fs_fclose :: "string \<Rightarrow> int"
  fs_written :: "string \<Rightarrow> string option"
  fs_perror :: "int \<Rightarrow> int"

text \<open>\<^verbatim>\<open>fopen(name, "w")\<close>, the \<^verbatim>\<open>fprintf\<close> calls sending \<open>text\<close>, and the stream closed.\<close>

definition fwrite_file :: "sysfs \<Rightarrow> string \<Rightarrow> string \<Rightarrow> sysfs" where
  "fwrite_file fs name text = fs\<lparr>fs_written := (fs_written fs)(name \<mapsto> text)\<rparr>"

section \<open>Device discovery\<close>

text \<open>
  \<^verbatim>\<open>seek_sysfs_dir\<close>: the names of the returned list (its last, empty cell left out);
  \<open>[]\<close> is the \<^verbatim>\<open>NULL\<close> result.  Allocation is assumed to succeed.
\<close>

definition seek_sysfs_dir :: "sysfs \<Rightarrow> string \<Rightarrow> string option \<Rightarrow> string list" where
  "seek_sysfs_dir fs dname node_name =
     (case fs_dir fs dname of
        None \<Rightarrow> []
      | Some entries \<Rightarrow>
          map (\<lambda>d_name. dname @ d_name @ (if node_name \<noteq> None then ''/'' else []))
            (filter (\<lambda>d_name. case node_name of None \<Rightarrow> True
                               | Some n \<Rightarrow> strncmp_prefix d_name n) entries))"

text \<open>
  The \<^verbatim>\<open>fgets\<close> loop of \<^verbatim>\<open>read_sysfs_uevents\<close> on the unread rest of the file: the
  (key, value) cells, or \<open>None\<close> when the function returns \<^verbatim>\<open>NULL\<close>.
\<close>

function uevent_lines :: "string \<Rightarrow> (string \<times> string) list option" where
  "uevent_lines s =
     (case fgets 4096 s of
        None \<Rightarrow> Some []
      | Some (line, rest) \<Rightarrow>
          (case strtok ''='' line of
             None \<Rightarrow> uevent_lines rest
           | Some (key, saved) \<Rightarrow>
               (case strtok [newline] saved of
                  None \<Rightarrow> None
                | Some (val, saved') \<Rightarrow>
                    (case uevent_lines rest of
                       None \<Rightarrow> None
                     | Some us \<Rightarrow> Some ((key, val) # us)))))"
  by pat_completeness auto
termination
  by (relation "measure length") (auto simp: numeral_eq_Suc dest: fgets_shorter)

declare uevent_lines.simps [simp del]

definition read_sysfs_uevents :: "sysfs \<Rightarrow> string \<Rightarrow> (string \<times> string) list option" where
  "read_sysfs_uevents fs dname =
     (case fs_file fs (dname @ ''uevent'') of
        None \<Rightarrow> None
      | Some content \<Rightarrow> uevent_lines content)"

text \<open>The results of \<^verbatim>\<open>find_device\<close>: \<^verbatim>\<open>NULL\<close> with one of its two messages, or the list.\<close>

datatype find_error = No_devices_found | Not_found_device string

text \<open>The search loop of \<^verbatim>\<open>find_device\<close>: the name of the cell it stops at.\<close>

fun find_name :: "string \<Rightarrow> string \<Rightarrow> string list \<Rightarrow> string option" where
  "find_name dname n [] = None"
| "find_name dname n (cur # names) =
     (if drop (length dname) cur = n then Some cur else find_name dname n names)"

definition find_device :: "sysfs \<Rightarrow> string option \<Rightarrow> find_error + string list" where
  "find_device fs name =
     (let dname = ''/sys/class/rc/'';
          names = seek_sysfs_dir fs dname (Some ''rc'')
      in if names = [] then Inl No_devices_found
         else case name of
           None \<Rightarrow> Inr names
         | Some nm \<Rightarrow>
             (case find_name dname (nm @ ''/'') names of
                None \<Rightarrow> Inl (Not_found_device nm)
              | Some found \<Rightarrow> Inr [found]))"

section \<open>Protocol negotiator\<close>

text \<open>
  The token loop of \<^verbatim>\<open>v1_get_hw_protocols\<close>.  \<open>None\<close> only if \<^verbatim>\<open>protocol_like\<close> reads out
  of bounds.
\<close>

fun hw_tokens :: "string list \<Rightarrow> sysfs_protocols \<Rightarrow> sysfs_protocols option" where
  "hw_tokens [] protocols = Some protocols"
| "hw_tokens (p # ps) protocols =
     (case parse_sysfs_protocol (Some p) False of
        None \<Rightarrow> None
      | Some protocol \<Rightarrow>
          hw_tokens ps
            (protocols OR (if protocol = SYSFS_INVALID then SYSFS_OTHER else protocol)))"

definition v1_get_hw_protocols :: "sysfs \<Rightarrow> string \<Rightarrow> sysfs_protocols option" where
  "v1_get_hw_protocols fs name =
     (case fs_file fs name of
        None \<Rightarrow> Some 0
      | Some content \<Rightarrow>
          (case fgets 4096 content of
             None \<Rightarrow> Some 0
           | Some (buf, rest) \<Rightarrow> hw_tokens (strtok_all [CHR '' '', newline] buf) 0))"

text \<open>\<^verbatim>\<open>v1_set_hw_protocols\<close>: the return value and the file system afterwards.\<close>

definition v1_set_hw_protocols :: "rc_device \<Rightarrow> sysfs \<Rightarrow> int \<times> sysfs" where
  "v1_set_hw_protocols rc_dev fs =
     (let name = rc_sysfs_name rc_dev @ ''/protocol''
      in if fs_wopen fs name \<noteq> 0 then (fs_perror fs (fs_wopen fs name), fs)
         else (0, fwrite_file fs name
                    (write_sysfs_protocols (rc_current rc_dev) ''%s '' @ [newline])))"

definition v1_get_sw_enabled_protocol :: "sysfs \<Rightarrow> string \<Rightarrow> int" where
  "v1_get_sw_enabled_protocol fs dirname =
     (let name = dirname @ ''/enabled''
      in case fs_file fs name of
           None \<Rightarrow> 0
         | Some content \<Rightarrow>
             (case fgets 4096 content of
                None \<Rightarrow> 0
              | Some (buf, rest) \<Rightarrow>
                  if fs_fclose fs name \<noteq> 0 then fs_perror fs (fs_fclose fs name)
                  else (case strtok [CHR '' '', newline] buf of
                          None \<Rightarrow> 0
                        | Some (p, saved) \<Rightarrow> if atoi p = 1 then 1 else 0)))"

definition v1_set_sw_enabled_protocol ::
  "rc_device \<Rightarrow> string \<Rightarrow> sysfs_protocols \<Rightarrow> sysfs \<Rightarrow> int \<times> sysfs" where
  "v1_set_sw_enabled_protocol rc_dev dirname enabled fs =
     (let name = rc_sysfs_name rc_dev @ dirname @ ''/enabled''
      in if fs_wopen fs name \<noteq> 0 then (fs_perror fs (fs_wopen fs name), fs)
         else let fs' = fwrite_file fs name (if enabled \<noteq> 0 then ''1'' else ''0'')
              in if fs_fclose fs name \<noteq> 0 then (fs_perror fs (fs_fclose fs name), fs')
                 else (0, fs'))"

text \<open>
  The token loop of \<^verbatim>\<open>v2_get_protocols\<close>.  For a token that starts with \<^verbatim>\<open>[\<close> the pointer
  is advanced and the last character overwritten with NUL.
\<close>

fun v2_tokens :: "string list \<Rightarrow> rc_device \<Rightarrow> rc_device option" where
  "v2_tokens [] rc_dev = Some rc_dev"
| "v2_tokens (p # ps) rc_dev =
     (let enabled = (take 1 p = ''['');
          p' = (if enabled then butlast (drop 1 p) else p)
      in case parse_sysfs_protocol (Some p') False of
           None \<Rightarrow> None
         | Some pr \<Rightarrow>
             let protocol = (if pr = SYSFS_INVALID then SYSFS_OTHER else pr);
                 rc1 = rc_dev\<lparr>rc_supported := rc_supported rc_dev OR protocol\<rparr>
             in v2_tokens ps
                  (if enabled then rc1\<lparr>rc_current := rc_current rc1 OR protocol\<rparr> else rc1))"

definition v2_get_protocols :: "rc_device \<Rightarrow> sysfs \<Rightarrow> string \<Rightarrow> rc_device option" where
  "v2_get_protocols rc_dev fs name =
     (case fs_file fs name of
        None \<Rightarrow> Some rc_dev
      | Some content \<Rightarrow>
          (case fgets 4096 content of
             None \<Rightarrow> Some rc_dev
           | Some (buf, rest) \<Rightarrow> v2_tokens (strtok_all [CHR '' '', newline] buf) rc_dev))"

text \<open>\<^verbatim>\<open>v2_set_protocols\<close>; \<^verbatim>\<open>0222\<close> is octal.\<close>

definition v2_set_protocols :: "rc_device \<Rightarrow> sysfs \<Rightarrow> int \<times> sysfs" where
  "v2_set_protocols rc_dev fs =
     (let name = rc_sysfs_name rc_dev @ ''/protocols''
      in if (case fs_mode fs name of None \<Rightarrow> False | Some st_mode \<Rightarrow> st_mode AND 146 = 0)
         then (EINVAL, fs)
         else if fs_wopen fs name \<noteq> 0 then (fs_perror fs (fs_wopen fs name), fs)
         else let fs' = fwrite_file fs name
                          (''none'' @ [newline] @
                           write_sysfs_protocols (rc_current rc_dev) (''+%s'' @ [newline]))
              in if fs_fclose fs name \<noteq> 0 then (fs_perror fs (fs_fclose fs name), fs')
                 else (0, fs'))"

text \<open>The loop of \<^verbatim>\<open>set_proto\<close> for a software decoder.\<close>

fun set_sw_loop ::
  "protocol_map_entry list \<Rightarrow> rc_device \<Rightarrow> int \<Rightarrow> sysfs \<Rightarrow> int \<times> sysfs" where
  "set_sw_loop [] rc_dev rc fs = (rc, fs)"
| "set_sw_loop (e # es) rc_dev rc fs =
     (case pme_sysfs1_name e of
        None \<Rightarrow> set_sw_loop es rc_dev rc fs
      | Some sysfs1_name \<Rightarrow>
          if rc_supported rc_dev AND pme_sysfs_protocol e = 0 then set_sw_loop es rc_dev rc fs
          else case v1_set_sw_enabled_protocol rc_dev sysfs1_name
                      (rc_current rc_dev AND pme_sysfs_protocol e) fs of
                 (r, fs') \<Rightarrow> set_sw_loop es rc_dev (rc + r) fs')"

text \<open>\<^verbatim>\<open>set_proto\<close>: the return value, the device record and the file system afterwards.\<close>

definition set_proto :: "rc_device \<Rightarrow> sysfs \<Rightarrow> int \<times> rc_device \<times> sysfs" where
  "set_proto rc_dev fs =
     (if rc_version rc_dev = VERSION_2 then
        (case v2_set_protocols rc_dev fs of (rc, fs') \<Rightarrow> (rc, rc_dev, fs'))
      else
        let rc_dev' = rc_dev\<lparr>rc_current := rc_current rc_dev AND rc_supported rc_dev\<rparr>
        in if rc_type rc_dev' = SOFTWARE_DECODER then
             (case set_sw_loop protocol_map rc_dev' 0 fs of (rc, fs') \<Rightarrow> (rc, rc_dev', fs'))
           else
             (case v1_set_hw_protocols rc_dev' fs of (rc, fs') \<Rightarrow> (rc, rc_dev', fs')))"

text \<open>
  The loops of \<^verbatim>\<open>get_attribs\<close> over a uevent list: the value of the first \<^verbatim>\<open>DEVNAME\<close> cell,
  and the names taken from every \<^verbatim>\<open>DRV_NAME\<close>, \<^verbatim>\<open>DEV_NAME\<close> and \<^verbatim>\<open>NAME\<close> cell in turn.
\<close>

fun uevent_devname :: "(string \<times> string) list \<Rightarrow> string option" where
  "uevent_devname [] = None"
| "uevent_devname ((key, val) # us) =
     (if key = ''DEVNAME'' then Some (''/dev/'' @ val) else uevent_devname us)"

fun uevent_names :: "(string \<times> string) list \<Rightarrow> rc_device \<Rightarrow> rc_device" where
  "uevent_names [] rc_dev = rc_dev"
| "uevent_names ((key, val) # us) rc_dev =
     (let rc1 = (if key = ''DRV_NAME'' then rc_dev\<lparr>rc_drv_name := Some val\<rparr> else rc_dev);
          rc2 = (if key = ''DEV_NAME'' then rc1\<lparr>rc_dev_name := Some val\<rparr> else rc1);
          rc3 = (if key = ''NAME'' then rc2\<lparr>rc_keytable_name := Some val\<rparr> else rc2)
      in uevent_names us rc3)"

text \<open>
  The innermost loop of \<^verbatim>\<open>get_attribs\<close>, over the table, for a node that is none of the
  protocol files.
\<close>

fun sw_decoder_node :: "sysfs \<Rightarrow> string \<Rightarrow> protocol_map_entry list \<Rightarrow> rc_device \<Rightarrow> rc_device" where
  "sw_decoder_node fs name [] rc_dev = rc_dev"
| "sw_decoder_node fs name (e # es) rc_dev =
     (case pme_sysfs1_name e of
        None \<Rightarrow> sw_decoder_node fs name es rc_dev
      | Some sysfs1_name \<Rightarrow>
          if strstr name sysfs1_name then
            (let rc1 = rc_dev\<lparr>rc_supported := rc_supported rc_dev OR pme_sysfs_protocol e\<rparr>
             in if v1_get_sw_enabled_protocol fs name \<noteq> 0
                then rc1\<lparr>rc_supported := rc_supported rc1 OR pme_sysfs_protocol e\<rparr>
                else rc1)
          else sw_decoder_node fs name es rc_dev)"

text \<open>The loop of \<^verbatim>\<open>get_attribs\<close> over the nodes of the device directory.\<close>

fun attribs_loop :: "sysfs \<Rightarrow> string list \<Rightarrow> rc_device \<Rightarrow> rc_device option" where
  "attribs_loop fs [] rc_dev = Some rc_dev"
| "attribs_loop fs (name # names) rc_dev =
     (if strstr name ''/protocols'' then
        (case v2_get_protocols (rc_dev\<lparr>rc_version := VERSION_2, rc_type := UNKNOWN_TYPE\<rparr>)
                fs name of
           None \<Rightarrow> None
         | Some rc_dev' \<Rightarrow> attribs_loop fs names rc_dev')
      else if strstr name ''/protocol'' then
        (case v1_get_hw_protocols fs name of
           None \<Rightarrow> None
         | Some protocols \<Rightarrow>
             attribs_loop fs names
               (rc_dev\<lparr>rc_version := VERSION_1, rc_type := HARDWARE_DECODER,
                       rc_current := protocols\<rparr>))
      else if strstr name ''/supported_protocols'' then
        (case v1_get_hw_protocols fs name of
           None \<Rightarrow> None
         | Some protocols \<Rightarrow>
             attribs_loop fs names (rc_dev\<lparr>rc_version := VERSION_1, rc_supported := protocols\<rparr>))
      else attribs_loop fs names (sw_decoder_node fs name protocol_map rc_dev))"

text \<open>The record after \<^verbatim>\<open>memset(rc_dev, 0, sizeof(*rc_dev))\<close> and the assignment of the name.\<close>

definition rc_device_zero :: "string \<Rightarrow> rc_device" where
  "rc_device_zero sysfs_name =
     \<lparr>rc_sysfs_name = sysfs_name, rc_input_name = None, rc_lirc_name = None,
      rc_drv_name = None, rc_dev_name = None, rc_keytable_name = None,
      rc_version = VERSION_1, rc_type = UNKNOWN_TYPE, rc_supported = 0, rc_current = 0\<rparr>"

text \<open>
  \<^verbatim>\<open>get_attribs\<close>: the return value and the device record.  \<open>None\<close>: a \<^verbatim>\<open>NULL\<close> list of
  attributes is dereferenced, or \<^verbatim>\<open>protocol_like\<close> reads out of bounds.
\<close>

definition get_attribs :: "sysfs \<Rightarrow> string \<Rightarrow> (int \<times> rc_device) option" where
  "get_attribs fs sysfs_name =
     (let rc0 = rc_device_zero sysfs_name;
          rc1 = (case seek_sysfs_dir fs sysfs_name (Some ''lirc'') of
                   [] \<Rightarrow> rc0
                 | lirc_name # lirc_names \<Rightarrow>
                     (case read_sysfs_uevents fs lirc_name of
                        None \<Rightarrow> rc0
                      | Some uevent \<Rightarrow> rc0\<lparr>rc_lirc_name := uevent_devname uevent\<rparr>))
      in case seek_sysfs_dir fs sysfs_name (Some ''input'') of
           [] \<Rightarrow> Some (EINVAL, rc1)
         | input_name # x # xs \<Rightarrow> Some (EINVAL, rc1)
         | [input_name] \<Rightarrow>
             (case seek_sysfs_dir fs input_name (Some ''event'') of
                [] \<Rightarrow> Some (EINVAL, rc1)
              | event_name # y # ys \<Rightarrow> Some (EINVAL, rc1)
              | [event_name] \<Rightarrow>
                  (case read_sysfs_uevents fs event_name of
                     None \<Rightarrow> Some (EINVAL, rc1)
                   | Some uevent \<Rightarrow>
                       (let rc2 = rc1\<lparr>rc_input_name := uevent_devname uevent\<rparr>
                        in if rc_input_name rc2 = None then Some (EINVAL, rc2)
                           else case read_sysfs_uevents fs sysfs_name of
                             None \<Rightarrow> Some (EINVAL, rc2)
                           | Some uevent' \<Rightarrow>
                               (let rc3 = (uevent_names uevent' rc2)\<lparr>rc_type := SOFTWARE_DECODER\<rparr>
                                in case seek_sysfs_dir fs sysfs_name None of
                                     [] \<Rightarrow> None
                                   | attribs \<Rightarrow>
                                       (case attribs_loop fs attribs rc3 of
                                          None \<Rightarrow> None
                                        | Some rc4 \<Rightarrow> Some (0, rc4)))))))"

section \<open>Kernel keycode programmer\<close>

text \<open>
  \<^verbatim>\<open>struct input_keymap_entry_v2\<close>.  The field \<open>v2_scancode\<close> stands for the first eight
  bytes of the array \<^verbatim>\<open>scancode[32]\<close>, as the 64-bit value \<^verbatim>\<open>memcpy\<close> copies into them; the
  other bytes are zero.
\<close>

record input_keymap_entry_v2 =
  v2_flags :: "8 word"
  v2_len :: "8 word"
  v2_index :: "16 word"
  v2_keycode :: "32 word"
  v2_scancode :: "64 word"

text \<open>The keycode-setting requests: \<^verbatim>\<open>EVIOCSKEYCODE\<close> with \<^verbatim>\<open>codes[0]\<close> and \<^verbatim>\<open>codes[1]\<close>, and
  \<^verbatim>\<open>EVIOCSKEYCODE_V2\<close> with its entry.\<close>

datatype ioctl_request =
  EVIOCSKEYCODE "32 word" "32 word"
| EVIOCSKEYCODE_V2 input_keymap_entry_v2

text \<open>
  \<^verbatim>\<open>get_input_protocol_version\<close>: the kernel answers \<^verbatim>\<open>EVIOCGVERSION\<close> with a version
  (\<open>Inl\<close>) or the call fails with an \<^verbatim>\<open>errno\<close> (\<open>Inr\<close>).  After a failure the message is
  printed and \<^verbatim>\<open>errno\<close> returned as it is then: \<open>after_message\<close> gives the value of
  \<^verbatim>\<open>errno\<close> after the \<^verbatim>\<open>fprintf\<close> from its value before.
\<close>

definition get_input_protocol_version ::
  "(int \<Rightarrow> int) \<Rightarrow> 32 word + int \<Rightarrow> globals \<Rightarrow> int \<times> globals" where
  "get_input_protocol_version after_message answer g =
     (case answer of
        Inl version \<Rightarrow> (0, g\<lparr>g_input_protocol_version := version\<rparr>)
      | Inr e \<Rightarrow> (after_message e, g\<lparr>g_errno := after_message e\<rparr>))"

text \<open>The request one iteration of the loop of \<^verbatim>\<open>add_keys\<close> sends.\<close>

definition key_request :: "keytable_entry \<Rightarrow> ioctl_request" where
  "key_request ke =
     (let codes0 = (ucast (ke_scancode ke) :: 32 word);
          codes1 = ke_keycode ke
      in if (ucast codes0 :: 64 word) \<noteq> ke_scancode ke then
           EVIOCSKEYCODE_V2
             \<lparr>v2_flags = 0, v2_len = 8, v2_index = 0, v2_keycode = ke_keycode ke,
              v2_scancode = ke_scancode ke\<rparr>
         else EVIOCSKEYCODE codes0 codes1)"

text \<open>
  The first loop of \<^verbatim>\<open>add_keys\<close>.  The device behind \<^verbatim>\<open>fd\<close> is a state \<open>k\<close> with its
  response \<open>ioctl\<close> to a request (return value and next state).  The result is
  \<^verbatim>\<open>write_cnt\<close> (an \<^verbatim>\<open>int\<close>), the device, the requests sent in order, and the entries for
  which the failure message is printed.
\<close>

fun add_keys_loop ::
  "('k \<Rightarrow> ioctl_request \<Rightarrow> int \<times> 'k) \<Rightarrow> keytable_entry list \<Rightarrow> 32 word \<Rightarrow> 'k \<Rightarrow>
   32 word \<times> 'k \<times> ioctl_request list \<times> keytable_entry list" where
  "add_keys_loop ioctl [] write_cnt k = (write_cnt, k, [], [])"
| "add_keys_loop ioctl (ke # kes) write_cnt k =
     (case ioctl k (key_request ke) of
        (r, k') \<Rightarrow>
          (case add_keys_loop ioctl kes (write_cnt + 1) k' of
             (cnt, k'', reqs, failed) \<Rightarrow>
               (cnt, k'', key_request ke # reqs, if r \<noteq> 0 then ke # failed else failed)))"

text \<open>\<^verbatim>\<open>add_keys\<close>; the second loop frees the table.\<close>

definition add_keys ::
  "('k \<Rightarrow> ioctl_request \<Rightarrow> int \<times> 'k) \<Rightarrow> globals \<Rightarrow> 'k \<Rightarrow>
   32 word \<times> globals \<times> 'k \<times> ioctl_request list \<times> keytable_entry list" where
  "add_keys ioctl g k =
     (case add_keys_loop ioctl (g_keytable g) 0 k of
        (cnt, k', reqs, failed) \<Rightarrow> (cnt, g\<lparr>g_keytable := []\<rparr>, k', reqs, failed))"

section \<open>Notions used to state the properties\<close>

text \<open>The two families of keycode requests.\<close>

datatype ioctl_family = Legacy_pair | Indexed

fun family_of :: "ioctl_request \<Rightarrow> ioctl_family" where
  "family_of (EVIOCSKEYCODE c0 c1) = Legacy_pair"
| "family_of (EVIOCSKEYCODE_V2 entry) = Indexed"

text \<open>
  The family the specification names for a binding: indexed when the scancode exceeds
  32 bits, otherwise the one selected by the detected version (legacy pair below
  \<^verbatim>\<open>0x10001\<close>).
\<close>

definition specified_family :: "32 word \<Rightarrow> keytable_entry \<Rightarrow> ioctl_family" where
  "specified_family version ke =
     (if ke_scancode ke > 0xFFFFFFFF then Indexed
      else if sint version < 0x10001 then Legacy_pair else Indexed)"

text \<open>The pairwise disjointness of the bits of a list of catalog entries.\<close>

fun disjoint_bits :: "protocol_map_entry list \<Rightarrow> bool" where
  "disjoint_bits [] = True"
| "disjoint_bits (e # es) =
     ((\<forall>e' \<in> set es. pme_sysfs_protocol e AND pme_sysfs_protocol e' = 0) \<and> disjoint_bits es)"


text \<open>
  A well-formed uevent line: a key without \<^verbatim>\<open>=\<close> and newline, \<^verbatim>\<open>=\<close>, a value without
  newline, both non-empty, and the newline; short enough for the line buffer.
\<close>

definition uevent_line :: "string \<times> string \<Rightarrow> string" where
  "uevent_line kv = fst kv @ ''='' @ snd kv @ [newline]"

definition wf_uevent :: "string \<times> string \<Rightarrow> bool" where
  "wf_uevent kv \<longleftrightarrow>
     fst kv \<noteq> [] \<and> CHR ''='' \<notin> set (fst kv) \<and> newline \<notin> set (fst kv) \<and>
     snd kv \<noteq> [] \<and> newline \<notin> set (snd kv) \<and>
     length (uevent_line kv) < 4096"

section \<open>Example inputs\<close>

text \<open>
  A device of the first sysfs generation with software decoders: the directory of
  \<^verbatim>\<open>rc0\<close> has one input node with one event node, and the decoder nodes \<^verbatim>\<open>rc5_decoder\<close>
  (its \<^verbatim>\<open>enabled\<close> file reads 1) and \<^verbatim>\<open>nec_decoder\<close> (its \<^verbatim>\<open>enabled\<close> file reads 0).
\<close>

definition sw_decoder_sysfs :: sysfs where
  "sw_decoder_sysfs =
     \<lparr>fs_dir = map_of
        [(''/sys/class/rc/'', [''.'', ''..'', ''rc0'']),
         (''/sys/class/rc/rc0/'',
            [''.'', ''..'', ''input5'', ''uevent'', ''rc5_decoder'', ''nec_decoder'', ''power'']),
         (''/sys/class/rc/rc0/input5/'', [''.'', ''..'', ''event3'', ''uevent''])],
      fs_file = map_of
        [(''/sys/class/rc/rc0/input5/event3/uevent'',
            ''MAJOR=13'' @ [newline] @ ''MINOR=67'' @ [newline] @
            ''DEVNAME=input/event3'' @ [newline]),
         (''/sys/class/rc/rc0/uevent'',
            ''NAME=rc-rc5-tv'' @ [newline] @ ''DRV_NAME=saa7134'' @ [newline]),
         (''/sys/class/rc/rc0/rc5_decoder/enabled'', ''1'' @ [newline]),
         (''/sys/class/rc/rc0/nec_decoder/enabled'', ''0'' @ [newline])],
      fs_mode = Map.empty, fs_wopen = (\<lambda>p. 0), fs_fclose = (\<lambda>p. 0),
      fs_written = Map.empty, fs_perror = (\<lambda>e. e)\<rparr>"

section \<open>Invariant of the raw-entry counter\<close>






text \<open>
  A device record for \<^verbatim>\<open>rc0\<close> that supports rc-5 and nec and for which nec and jvc are
  requested, and a file system in which the \<^verbatim>\<open>protocols\<close> node has the given mode and
  every file can be opened for writing.
\<close>

definition requested_rc_device :: "sysfs_ver \<Rightarrow> rc_type \<Rightarrow> rc_device" where
  "requested_rc_device v t =
     \<lparr>rc_sysfs_name = ''/sys/class/rc/rc0/'', rc_input_name = Some ''/dev/input/event3'',
      rc_lirc_name = None, rc_drv_name = None, rc_dev_name = None, rc_keytable_name = None,
      rc_version = v, rc_type = t, rc_supported = SYSFS_RC5 OR SYSFS_NEC,
      rc_current = SYSFS_NEC OR SYSFS_JVC\<rparr>"

definition writable_sysfs :: "32 word \<Rightarrow> sysfs" where
  "writable_sysfs st_mode =
     \<lparr>fs_dir = Map.empty, fs_file = Map.empty,
      fs_mode = map_of [(''/sys/class/rc/rc0//protocols'', st_mode)],
      fs_wopen = (\<lambda>p. 0), fs_fclose = (\<lambda>p. 0), fs_written = Map.empty,
      fs_perror = (\<lambda>e. e)\<rparr>"

section \<open>Properties of the protocol catalog\<close>

lemma parse_loop_range:
  "parse_loop n es = Some m \<Longrightarrow> m = SYSFS_INVALID \<or> m \<in> pme_sysfs_protocol ` set es"
  by (induction es) (auto split: option.splits bool.splits)

lemma catalog_roundtrip_plain:
  "\<forall>e \<in> set protocol_map. pme_sysfs_protocol e \<noteq> SYSFS_INVALID \<longrightarrow>
     write_sysfs_protocols (pme_sysfs_protocol e) ''%s'' = pme_name e \<and>
     parse_sysfs_protocol (Some (pme_name e)) False = Some (pme_sysfs_protocol e)"
  by code_simp

lemma catalog_roundtrip_all:
  "\<forall>e \<in> set protocol_map. pme_sysfs_protocol e \<noteq> SYSFS_INVALID \<longrightarrow>
     parse_sysfs_protocol (Some (pme_name e)) True = Some (pme_sysfs_protocol e)"
  by code_simp

lemma aliases_plain:
  "\<forall>a \<in> set zero_bit_aliases. parse_sysfs_protocol (Some a) False = Some SYSFS_INVALID"
  by code_simp

lemma aliases_all:
  "\<forall>a \<in> set zero_bit_aliases. parse_sysfs_protocol (Some a) True = Some SYSFS_INVALID"
  by code_simp

text \<open>
  C4.  Whenever the catalog accepts a name with a non-zero mask, formatting that mask
  prints a name of the catalog, and parsing the printed name (with or without the ``all''
  sentinel allowed) gives the same mask again.  Each of the nine zero-bit aliases parses
  to \<^verbatim>\<open>SYSFS_INVALID\<close>.
\<close>

theorem format_parse_roundtrip:
  "(parse_sysfs_protocol (Some n) False = Some m \<and> m \<noteq> SYSFS_INVALID \<longrightarrow>
      write_sysfs_protocols m ''%s'' \<in> pme_name ` set protocol_map \<and>
      parse_sysfs_protocol (Some (write_sysfs_protocols m ''%s'')) all_allowed = Some m) \<and>
   (\<forall>a \<in> set zero_bit_aliases.
      parse_sysfs_protocol (Some a) all_allowed = Some SYSFS_INVALID)"
proof (intro conjI impI)
  assume a: "parse_sysfs_protocol (Some n) False = Some m \<and> m \<noteq> SYSFS_INVALID"
  then have "parse_loop n protocol_map = Some m" by (simp add: parse_sysfs_protocol_def)
  with a obtain e where e: "e \<in> set protocol_map" "pme_sysfs_protocol e = m"
    using parse_loop_range by blast
  with a catalog_roundtrip_plain catalog_roundtrip_all
  have w: "write_sysfs_protocols m ''%s'' = pme_name e"
    and p: "parse_sysfs_protocol (Some (pme_name e)) all_allowed = Some m"
    by (cases all_allowed; auto)+
  from w e show "write_sysfs_protocols m ''%s'' \<in> pme_name ` set protocol_map" by simp
  from w p show "parse_sysfs_protocol (Some (write_sysfs_protocols m ''%s'')) all_allowed = Some m"
    by simp
next
  show "\<forall>a \<in> set zero_bit_aliases.
      parse_sysfs_protocol (Some a) all_allowed = Some SYSFS_INVALID"
    using aliases_plain aliases_all by (cases all_allowed) auto
qed

theorem format_parse_roundtrip_witness:
  "parse_sysfs_protocol (Some ''RC_6'') False = Some SYSFS_RC6 \<and> SYSFS_RC6 \<noteq> SYSFS_INVALID \<and>
   write_sysfs_protocols SYSFS_RC6 ''%s'' \<in> pme_name ` set protocol_map \<and>
   parse_sysfs_protocol (Some (write_sysfs_protocols SYSFS_RC6 ''%s'')) True = Some SYSFS_RC6 \<and>
   ''sony12'' \<in> set zero_bit_aliases \<and>
   parse_sysfs_protocol (Some ''sony12'') True = Some SYSFS_INVALID"
proof -
  have h: "parse_sysfs_protocol (Some ''RC_6'') False = Some SYSFS_RC6" by code_simp
  have nz: "SYSFS_RC6 \<noteq> SYSFS_INVALID" by (simp add: sysfs_defs)
  have al: "''sony12'' \<in> set zero_bit_aliases" by (simp add: zero_bit_aliases_def)
  from format_parse_roundtrip [of "''RC_6''" SYSFS_RC6 True] h nz al show ?thesis by blast
qed

lemma well_separated_tl: "well_separated (c # cs) \<Longrightarrow> well_separated cs"
  by (cases cs) auto

lemma canon_Nil_iff: "well_separated s \<Longrightarrow> canon s = [] \<longleftrightarrow> s = []"
  by (induction s rule: well_separated.induct) (auto simp: canon_def)

lemma skip_sep_well_separated:
  assumes "well_separated (x # xs)"
  shows "\<exists>c cs. skip_sep (x # xs) = c # cs \<and> well_separated cs \<and>
           canon (x # xs) = tolower c # canon cs"
proof (cases "is_sep x")
  case True
  with assms obtain d ds where xs: "xs = d # ds" and d: "\<not> is_sep d"
    by (cases xs) auto
  from assms have "well_separated xs" by (rule well_separated_tl)
  with xs have "well_separated ds" using well_separated_tl by blast
  with True xs d show ?thesis by (simp add: canon_def)
next
  case False
  with assms show ?thesis using well_separated_tl [OF assms] by (simp add: canon_def)
qed

text \<open>
  On names in which no separator is doubled or last, \<^verbatim>\<open>protocol_like\<close> stays inside both
  strings and decides equality up to separators and case.
\<close>

lemma protocol_like_canon:
  "well_separated a \<Longrightarrow> well_separated b \<Longrightarrow> protocol_like a b = Some (canon a = canon b)"
proof (induction a b rule: protocol_like.induct)
  case (1 b)
  then show ?case using canon_Nil_iff [of b] by (auto simp: canon_def)
next
  case (2 x xs)
  then show ?case using canon_Nil_iff [of "x # xs"] by (auto simp: canon_def)
next
  case (3 x xs y ys)
  from skip_sep_well_separated [OF "3.prems"(1)] obtain c cs where
    a: "skip_sep (x # xs) = c # cs" "well_separated cs" "canon (x # xs) = tolower c # canon cs"
    by blast
  from skip_sep_well_separated [OF "3.prems"(2)] obtain d ds where
    b: "skip_sep (y # ys) = d # ds" "well_separated ds" "canon (y # ys) = tolower d # canon ds"
    by blast
  show ?case
  proof (cases "tolower c = tolower d")
    case True
    have "protocol_like cs ds = Some (canon cs = canon ds)"
      using "3.IH" a b True by simp
    with a b True show ?thesis by simp
  next
    case False
    with a b show ?thesis by simp
  qed
qed

lemma catalog_well_separated: "\<forall>e \<in> set protocol_map. well_separated (pme_name e)"
  by code_simp

lemma parse_loop_canon:
  "well_separated v \<Longrightarrow> well_separated w \<Longrightarrow> canon v = canon w \<Longrightarrow>
   \<forall>e \<in> set es. well_separated (pme_name e) \<Longrightarrow> parse_loop v es = parse_loop w es"
  by (induction es) (auto simp: protocol_like_canon split: bool.splits)

lemma canon_all: "strcasecmp_eq v ''all'' \<Longrightarrow> canon v = ''all''"
proof -
  assume "strcasecmp_eq v ''all''"
  then have m: "map tolower v = ''all''" by (simp add: strcasecmp_eq_def tolower_def)
  have "\<forall>c \<in> set v. \<not> is_sep c"
  proof
    fix c assume "c \<in> set v"
    then have "tolower c \<in> set (map tolower v)" by simp
    with m have "tolower c = CHR ''a'' \<or> tolower c = CHR ''l''" by auto
    then show "\<not> is_sep c" by (auto simp: is_sep_def tolower_def)
  qed
  then have "filter (\<lambda>c. \<not> is_sep c) v = v" by (simp add: filter_id_conv)
  with m show ?thesis by (simp add: canon_def)
qed

lemma catalog_not_all: "\<forall>e \<in> set protocol_map. canon (pme_name e) \<noteq> ''all''"
  by code_simp





text \<open>
  C5, as the specification states it, fails: \<^verbatim>\<open>rc--5\<close> differs from \<^verbatim>\<open>rc-5\<close> by one inserted
  separator only, and does not parse to the mask of \<^verbatim>\<open>rc-5\<close>: \<^verbatim>\<open>protocol_like\<close> skips at most
  one separator before each compared character.
\<close>

theorem parse_inserted_separator_counterexample:
  "canon ''rc--5'' = canon ''rc-5'' \<and>
   parse_sysfs_protocol (Some ''rc--5'') False = Some SYSFS_INVALID \<and>
   parse_sysfs_protocol (Some ''rc-5'') False = Some SYSFS_RC5 \<and>
   SYSFS_RC5 \<noteq> SYSFS_INVALID"
  by code_simp

text \<open>
  C5, amended.  For every catalog name, every variant that agrees with it after deleting
  the separators and lower-casing, and in which each separator is directly followed by a
  character that is not a separator, parses to the same mask.
\<close>

theorem parse_separator_case_insensitive:
  assumes n: "n \<in> pme_name ` set protocol_map"
    and v: "well_separated v"
    and c: "canon v = canon n"
  shows "parse_sysfs_protocol (Some v) all_allowed = parse_sysfs_protocol (Some n) all_allowed"
proof -
  from n catalog_well_separated have wn: "well_separated n" by auto
  from n catalog_not_all have "canon n \<noteq> ''all''" by auto
  with c have "\<not> strcasecmp_eq v ''all''" "\<not> strcasecmp_eq n ''all''"
    using canon_all by fastforce+
  then show ?thesis
    using parse_loop_canon [OF v wn c catalog_well_separated]
    by (simp add: parse_sysfs_protocol_def)
qed

theorem parse_separator_case_insensitive_witness:
  "''rc-5'' \<in> pme_name ` set protocol_map \<and>
   well_separated ''RC_5'' \<and> canon ''RC_5'' = canon ''rc-5'' \<and>
   well_separated ''rc5'' \<and> canon ''rc5'' = canon ''rc-5'' \<and>
   parse_sysfs_protocol (Some ''RC_5'') True = parse_sysfs_protocol (Some ''rc-5'') True \<and>
   parse_sysfs_protocol (Some ''rc5'') True = parse_sysfs_protocol (Some ''rc-5'') True \<and>
   parse_sysfs_protocol (Some ''rc-5'') True = Some SYSFS_RC5"
proof -
  have n: "''rc-5'' \<in> pme_name ` set protocol_map" by code_simp
  have v1: "well_separated ''RC_5''" and c1: "canon ''RC_5'' = canon ''rc-5''" by code_simp+
  have v2: "well_separated ''rc5''" and c2: "canon ''rc5'' = canon ''rc-5''" by code_simp+
  have p: "parse_sysfs_protocol (Some ''rc-5'') True = Some SYSFS_RC5" by code_simp
  from parse_separator_case_insensitive [OF n v1 c1, of True]
    parse_separator_case_insensitive [OF n v2 c2, of True] n v1 c1 v2 c2 p
  show ?thesis by simp
qed

lemma ucast_roundtrip_iff:
  "(ucast (ucast (x :: 64 word) :: 32 word) :: 64 word) \<noteq> x \<longleftrightarrow> x > 0xFFFFFFFF"
proof -
  have "unat (ucast (ucast x :: 32 word) :: 64 word) = unat x mod 2 ^ 32"
    by (simp add: unsigned_ucast_eq unsigned_take_bit_eq take_bit_eq_mod unat_mod)
  moreover have "unat x mod 2 ^ 32 = unat x \<longleftrightarrow> unat x < 2 ^ 32"
    by (metis mod_less mod_less_divisor zero_less_numeral zero_less_power)
  ultimately have "(ucast (ucast x :: 32 word) :: 64 word) = x \<longleftrightarrow> unat x < 2 ^ 32"
    by (simp add: word_unat_eq_iff)
  then show ?thesis by (auto simp: word_less_nat_alt)
qed

lemma family_key_request:
  "family_of (key_request ke) = (if ke_scancode ke > 0xFFFFFFFF then Indexed else Legacy_pair)"
  using ucast_roundtrip_iff [of "ke_scancode ke"] by (simp add: key_request_def Let_def)

lemma add_keys_loop_result:
  "add_keys_loop ioctl kes c k = (cnt, k', reqs, failed) \<Longrightarrow>
   reqs = map key_request kes \<and> cnt = c + word_of_nat (length kes) \<and> set failed \<subseteq> set kes"
proof (induction kes arbitrary: c k cnt k' reqs failed)
  case Nil
  then show ?case by simp
next
  case (Cons ke kes)
  obtain r k1 where i: "ioctl k (key_request ke) = (r, k1)" by (cases "ioctl k (key_request ke)")
  obtain cnt2 k2 reqs2 failed2 where
    l: "add_keys_loop ioctl kes (c + 1) k1 = (cnt2, k2, reqs2, failed2)"
    by (cases "add_keys_loop ioctl kes (c + 1) k1") auto
  from Cons.IH [OF l] Cons.prems i l show ?case by (auto split: if_splits)
qed

lemma param_found_iff:
  fixes x :: protocol_param
  shows "list_ex (\<lambda>b2. pp_name x = pp_name b2 \<and> pp_value x = pp_value b2) b \<longleftrightarrow> x \<in> set b"
proof
  assume "list_ex (\<lambda>b2. pp_name x = pp_name b2 \<and> pp_value x = pp_value b2) b"
  then obtain b2 where b2: "b2 \<in> set b" "pp_name x = pp_name b2" "pp_value x = pp_value b2"
    by (auto simp: list_ex_iff)
  then have "x = b2" by (intro protocol_param.equality) simp_all
  with b2 show "x \<in> set b" by simp
next
  assume "x \<in> set b"
  then show "list_ex (\<lambda>b2. pp_name x = pp_name b2 \<and> pp_value x = pp_value b2) b"
    by (auto simp: list_ex_iff)
qed

lemma compare_parameters_subset: "compare_parameters a b \<longleftrightarrow> set a \<subseteq> set b"
  by (induction a) (simp_all add: param_found_iff)

lemma bpf_protocol_found_iff:
  "bpf_protocol_found new bpf \<longleftrightarrow>
   (\<exists>a \<in> set bpf. bp_name a = bp_name new \<and> set (bp_param a) = set (bp_param new))"
  by (induction bpf) (auto simp: compare_parameters_subset)

lemma load_bpf_loop_catalog:
  "load_bpf_loop protocol_map protocols supported bpf =
     (if protocols AND SYSFS_XBOX_DVD \<noteq> 0 \<and> supported AND SYSFS_XBOX_DVD = 0
      then (protocols AND NOT SYSFS_XBOX_DVD,
            add_bpf_protocol \<lparr>bp_param = [], bp_name = ''xbox-dvd''\<rparr> bpf)
      else (protocols, bpf))"
  by (simp add: protocol_map_def pme_def sysfs_defs)

lemma xbox_bit: "bit SYSFS_XBOX_DVD i \<longleftrightarrow> i = 16"
proof -
  have eq: "SYSFS_XBOX_DVD = 2 ^ 16" by (simp add: SYSFS_XBOX_DVD_def)
  show ?thesis unfolding eq by (simp only: bit_exp_iff) (auto simp: possible_bit_word)
qed

lemma other_bits: "i \<noteq> 16 \<Longrightarrow> bit (p AND NOT SYSFS_XBOX_DVD) i = bit p i"
  by (auto simp: bit_and_iff bit_not_iff xbox_bit dest: bit_imp_possible_bit)

lemma find_name_map:
  "find_name dname (nm @ ''/'') (map (\<lambda>d. dname @ d @ ''/'') rcs) =
     (if nm \<in> set rcs then Some (dname @ nm @ ''/'') else None)"
  by (induction rcs) auto


section \<open>Properties of the keycode programmer\<close>

lemma sint_word_of_nat_32:
  "n < 2 ^ 31 \<Longrightarrow> sint (word_of_nat n :: 32 word) = int n"
proof -
  assume "n < 2 ^ 31"
  then have "int n < 2 ^ 31" by (metis of_nat_less_iff of_nat_numeral of_nat_power)
  then have "signed_take_bit 31 (int n) = int n"
    by (intro signed_take_bit_int_eq_self) simp_all
  then show ?thesis by (simp add: signed_of_nat)
qed

text \<open>
  C2, as the specification states it, fails: with the detected version \<^verbatim>\<open>0x10001\<close> a binding
  whose scancode fits 32 bits is named the indexed request, and \<^verbatim>\<open>add_keys\<close> sends the
  legacy pair.
\<close>

theorem add_keys_version_counterexample:
  "specified_family 0x10001 \<lparr>ke_scancode = 0x100, ke_keycode = 116\<rparr> = Indexed \<and>
   add_keys (\<lambda>k r. (0, k))
     (initial_globals\<lparr>g_keytable := [\<lparr>ke_scancode = 0x100, ke_keycode = 116\<rparr>],
                      g_input_protocol_version := 0x10001\<rparr>) () =
     (1, initial_globals\<lparr>g_keytable := [], g_input_protocol_version := 0x10001\<rparr>, (),
      [EVIOCSKEYCODE 0x100 116], []) \<and>
   family_of (EVIOCSKEYCODE 0x100 116) = Legacy_pair"
  by (simp add: specified_family_def add_keys_def key_request_def initial_globals_def)

text \<open>
  C2, amended.  \<^verbatim>\<open>add_keys\<close> sends one request per binding, in table order, whatever the
  earlier requests returned: \<^verbatim>\<open>EVIOCSKEYCODE_V2\<close> with length 8 for a scancode above
  32 bits, the legacy \<^verbatim>\<open>EVIOCSKEYCODE\<close> pair for every other scancode.  The detected
  evdev version has no influence.  It returns the number of bindings (exactly, for fewer
  than \<open>2^31\<close> of them) and leaves the table empty.
\<close>

theorem add_keys_requests:
  assumes "add_keys ioctl g k = (cnt, g', k', reqs, failed)"
  shows "reqs =
           map (\<lambda>ke. if ke_scancode ke > 0xFFFFFFFF
                      then EVIOCSKEYCODE_V2
                             \<lparr>v2_flags = 0, v2_len = 8, v2_index = 0,
                              v2_keycode = ke_keycode ke, v2_scancode = ke_scancode ke\<rparr>
                      else EVIOCSKEYCODE (ucast (ke_scancode ke)) (ke_keycode ke))
               (g_keytable g) \<and>
         (\<forall>v. add_keys ioctl (g\<lparr>g_input_protocol_version := v\<rparr>) k =
                (cnt, g'\<lparr>g_input_protocol_version := v\<rparr>, k', reqs, failed)) \<and>
         cnt = word_of_nat (length (g_keytable g)) \<and>
         (length (g_keytable g) < 2 ^ 31 \<longrightarrow> sint cnt = int (length (g_keytable g))) \<and>
         g_keytable g' = []"
proof -
  from assms obtain c where
    l: "add_keys_loop ioctl (g_keytable g) 0 k = (c, k', reqs, failed)"
    and c: "cnt = c" and g': "g' = g\<lparr>g_keytable := []\<rparr>"
    by (auto simp: add_keys_def split: prod.splits)
  from add_keys_loop_result [OF l] c
  have r: "reqs = map key_request (g_keytable g)"
    and n: "cnt = word_of_nat (length (g_keytable g))" by simp_all
  have k: "key_request ke =
      (if ke_scancode ke > 0xFFFFFFFF
       then EVIOCSKEYCODE_V2
              \<lparr>v2_flags = 0, v2_len = 8, v2_index = 0,
               v2_keycode = ke_keycode ke, v2_scancode = ke_scancode ke\<rparr>
       else EVIOCSKEYCODE (ucast (ke_scancode ke)) (ke_keycode ke))" for ke
    using ucast_roundtrip_iff [of "ke_scancode ke"] by (simp add: key_request_def Let_def)
  have v: "add_keys ioctl (g\<lparr>g_input_protocol_version := v\<rparr>) k =
                (cnt, g'\<lparr>g_input_protocol_version := v\<rparr>, k', reqs, failed)" for v
    using l c g' by (simp add: add_keys_def)
  from r k v n g' show ?thesis by (simp add: sint_word_of_nat_32)
qed

theorem add_keys_requests_witness:
  "add_keys (\<lambda>k r. (case r of EVIOCSKEYCODE c0 c1 \<Rightarrow> 0 | EVIOCSKEYCODE_V2 e \<Rightarrow> - 1, k))
     (initial_globals\<lparr>g_keytable := [\<lparr>ke_scancode = 0x100000000, ke_keycode = 116\<rparr>,
                                      \<lparr>ke_scancode = 0x100, ke_keycode = 352\<rparr>],
                      g_input_protocol_version := 0x10001\<rparr>) () =
     (2, initial_globals\<lparr>g_keytable := [], g_input_protocol_version := 0x10001\<rparr>, (),
      [EVIOCSKEYCODE_V2 \<lparr>v2_flags = 0, v2_len = 8, v2_index = 0, v2_keycode = 116,
                         v2_scancode = 0x100000000\<rparr>,
       EVIOCSKEYCODE 0x100 352],
      [\<lparr>ke_scancode = 0x100000000, ke_keycode = 116\<rparr>]) \<and>
   sint (2 :: 32 word) = 2"
proof -
  let ?ioctl = "\<lambda>(k :: unit) r. (case r of EVIOCSKEYCODE c0 c1 \<Rightarrow> 0 :: int | EVIOCSKEYCODE_V2 e \<Rightarrow> - 1, k)"
  let ?g = "initial_globals\<lparr>g_keytable := [\<lparr>ke_scancode = 0x100000000, ke_keycode = 116\<rparr>,
                                      \<lparr>ke_scancode = 0x100, ke_keycode = 352\<rparr>],
                      g_input_protocol_version := 0x10001\<rparr>"
  have e: "add_keys ?ioctl ?g () =
     (2, initial_globals\<lparr>g_keytable := [], g_input_protocol_version := 0x10001\<rparr>, (),
      [EVIOCSKEYCODE_V2 \<lparr>v2_flags = 0, v2_len = 8, v2_index = 0, v2_keycode = 116,
                         v2_scancode = 0x100000000\<rparr>,
       EVIOCSKEYCODE 0x100 352],
      [\<lparr>ke_scancode = 0x100000000, ke_keycode = 116\<rparr>])"
    by (simp add: add_keys_def key_request_def initial_globals_def)
  from add_keys_requests [OF e] e show ?thesis by (simp add: initial_globals_def)
qed

section \<open>Properties of the BPF decoder registry\<close>

text \<open>
  C6.  A request is added exactly when no registered request has its name and the same
  set of (name, value) parameters; the registry is unchanged otherwise.  For any name,
  registering \<open>{a:1, b:2}\<close> and then \<open>{b:2, a:1}\<close> leaves one request, and registering
  \<open>{a:1, b:2}\<close> and then \<open>{a:1, b:3}\<close> leaves two.
\<close>

theorem add_bpf_protocol_dedup:
  "add_bpf_protocol new bpf =
     (if \<exists>a \<in> set bpf. bp_name a = bp_name new \<and> set (bp_param a) = set (bp_param new)
      then bpf else new # bpf) \<and>
   length (add_bpf_protocol
             \<lparr>bp_param = [\<lparr>pp_name = ''b'', pp_value = 2\<rparr>, \<lparr>pp_name = ''a'', pp_value = 1\<rparr>],
              bp_name = n\<rparr>
             (add_bpf_protocol
                \<lparr>bp_param = [\<lparr>pp_name = ''a'', pp_value = 1\<rparr>, \<lparr>pp_name = ''b'', pp_value = 2\<rparr>],
                 bp_name = n\<rparr> [])) = 1 \<and>
   length (add_bpf_protocol
             \<lparr>bp_param = [\<lparr>pp_name = ''a'', pp_value = 1\<rparr>, \<lparr>pp_name = ''b'', pp_value = 3\<rparr>],
              bp_name = n\<rparr>
             (add_bpf_protocol
                \<lparr>bp_param = [\<lparr>pp_name = ''a'', pp_value = 1\<rparr>, \<lparr>pp_name = ''b'', pp_value = 2\<rparr>],
                 bp_name = n\<rparr> [])) = 2"
proof (intro conjI)
  show "add_bpf_protocol new bpf =
     (if \<exists>a \<in> set bpf. bp_name a = bp_name new \<and> set (bp_param a) = set (bp_param new)
      then bpf else new # bpf)"
    by (simp add: add_bpf_protocol_def bpf_protocol_found_iff)
qed (simp_all add: add_bpf_protocol_def)

theorem add_bpf_protocol_dedup_witness:
  "add_bpf_protocol
     \<lparr>bp_param = [\<lparr>pp_name = ''b'', pp_value = 2\<rparr>, \<lparr>pp_name = ''a'', pp_value = 1\<rparr>],
      bp_name = ''pulse_distance''\<rparr>
     [\<lparr>bp_param = [\<lparr>pp_name = ''a'', pp_value = 1\<rparr>, \<lparr>pp_name = ''b'', pp_value = 2\<rparr>],
       bp_name = ''pulse_distance''\<rparr>] =
     [\<lparr>bp_param = [\<lparr>pp_name = ''a'', pp_value = 1\<rparr>, \<lparr>pp_name = ''b'', pp_value = 2\<rparr>],
       bp_name = ''pulse_distance''\<rparr>] \<and>
   add_bpf_protocol
     \<lparr>bp_param = [\<lparr>pp_name = ''a'', pp_value = 1\<rparr>, \<lparr>pp_name = ''b'', pp_value = 3\<rparr>],
      bp_name = ''pulse_distance''\<rparr>
     [\<lparr>bp_param = [\<lparr>pp_name = ''a'', pp_value = 1\<rparr>, \<lparr>pp_name = ''b'', pp_value = 2\<rparr>],
       bp_name = ''pulse_distance''\<rparr>] =
     [\<lparr>bp_param = [\<lparr>pp_name = ''a'', pp_value = 1\<rparr>, \<lparr>pp_name = ''b'', pp_value = 3\<rparr>],
       bp_name = ''pulse_distance''\<rparr>,
      \<lparr>bp_param = [\<lparr>pp_name = ''a'', pp_value = 1\<rparr>, \<lparr>pp_name = ''b'', pp_value = 2\<rparr>],
       bp_name = ''pulse_distance''\<rparr>]"
  using
    add_bpf_protocol_dedup [of
      "\<lparr>bp_param = [\<lparr>pp_name = ''b'', pp_value = 2\<rparr>, \<lparr>pp_name = ''a'', pp_value = 1\<rparr>],
        bp_name = ''pulse_distance''\<rparr>"
      "[\<lparr>bp_param = [\<lparr>pp_name = ''a'', pp_value = 1\<rparr>, \<lparr>pp_name = ''b'', pp_value = 2\<rparr>],
         bp_name = ''pulse_distance''\<rparr>]"]
    add_bpf_protocol_dedup [of
      "\<lparr>bp_param = [\<lparr>pp_name = ''a'', pp_value = 1\<rparr>, \<lparr>pp_name = ''b'', pp_value = 3\<rparr>],
        bp_name = ''pulse_distance''\<rparr>"
      "[\<lparr>bp_param = [\<lparr>pp_name = ''a'', pp_value = 1\<rparr>, \<lparr>pp_name = ''b'', pp_value = 2\<rparr>],
         bp_name = ''pulse_distance''\<rparr>]"]
  by (simp add: insert_commute doubleton_eq_iff)

text \<open>
  C10.  \<^verbatim>\<open>load_bpf_for_unsupported\<close> changes something only when \<^verbatim>\<open>xbox-dvd\<close> is requested
  and not supported: then that bit alone is cleared from the returned mask and the
  request \<^verbatim>\<open>xbox-dvd\<close> without parameters is registered (it is in the registry afterwards).
  In every other case the mask is returned as it is and the registry is unchanged; every
  bit other than that of \<^verbatim>\<open>xbox-dvd\<close> is returned as requested in all cases.
\<close>

theorem load_bpf_for_unsupported_xbox_only:
  "load_bpf_for_unsupported protocols supported g =
     (if protocols AND SYSFS_XBOX_DVD \<noteq> 0 \<and> supported AND SYSFS_XBOX_DVD = 0
      then (protocols AND NOT SYSFS_XBOX_DVD,
            g\<lparr>g_bpf_protocol :=
                add_bpf_protocol \<lparr>bp_param = [], bp_name = ''xbox-dvd''\<rparr> (g_bpf_protocol g)\<rparr>)
      else (protocols, g)) \<and>
   \<lparr>bp_param = [], bp_name = ''xbox-dvd''\<rparr> \<in>
     set (add_bpf_protocol \<lparr>bp_param = [], bp_name = ''xbox-dvd''\<rparr> (g_bpf_protocol g)) \<and>
   (\<forall>i. i \<noteq> 16 \<longrightarrow>
      bit (fst (load_bpf_for_unsupported protocols supported g)) i = bit protocols i)"
proof (intro conjI)
  show eq: "load_bpf_for_unsupported protocols supported g =
     (if protocols AND SYSFS_XBOX_DVD \<noteq> 0 \<and> supported AND SYSFS_XBOX_DVD = 0
      then (protocols AND NOT SYSFS_XBOX_DVD,
            g\<lparr>g_bpf_protocol :=
                add_bpf_protocol \<lparr>bp_param = [], bp_name = ''xbox-dvd''\<rparr> (g_bpf_protocol g)\<rparr>)
      else (protocols, g))"
    by (simp add: load_bpf_for_unsupported_def load_bpf_loop_catalog)
  show "\<lparr>bp_param = [], bp_name = ''xbox-dvd''\<rparr> \<in>
     set (add_bpf_protocol \<lparr>bp_param = [], bp_name = ''xbox-dvd''\<rparr> (g_bpf_protocol g))"
  proof (cases "bpf_protocol_found \<lparr>bp_param = [], bp_name = ''xbox-dvd''\<rparr> (g_bpf_protocol g)")
    case True
    then obtain a where a: "a \<in> set (g_bpf_protocol g)" "bp_name a = ''xbox-dvd''"
      "bp_param a = []"
      by (auto simp: bpf_protocol_found_iff)
    then have "a = \<lparr>bp_param = [], bp_name = ''xbox-dvd''\<rparr>" by (intro bpf_protocol.equality) simp_all
    with a True show ?thesis by (simp add: add_bpf_protocol_def)
  next
    case False
    then show ?thesis by (simp add: add_bpf_protocol_def)
  qed
  show "\<forall>i. i \<noteq> 16 \<longrightarrow>
      bit (fst (load_bpf_for_unsupported protocols supported g)) i = bit protocols i"
    unfolding eq by (simp add: other_bits)
qed

theorem load_bpf_for_unsupported_xbox_only_witness:
  "load_bpf_for_unsupported (SYSFS_XBOX_DVD OR SYSFS_IMON OR SYSFS_NEC) SYSFS_NEC initial_globals =
     (SYSFS_IMON OR SYSFS_NEC,
      initial_globals\<lparr>g_bpf_protocol := [\<lparr>bp_param = [], bp_name = ''xbox-dvd''\<rparr>]\<rparr>) \<and>
   bit (SYSFS_IMON OR SYSFS_NEC :: sysfs_protocols) 14 \<and>
   \<not> bit (SYSFS_IMON OR SYSFS_NEC :: sysfs_protocols) 16"
proof -
  have b: "bit (SYSFS_IMON OR SYSFS_NEC :: sysfs_protocols) 14"
    by (simp add: sysfs_defs bit_or_iff bit_push_bit_iff)
  have e: "(SYSFS_XBOX_DVD OR SYSFS_IMON OR SYSFS_NEC) AND NOT SYSFS_XBOX_DVD = SYSFS_IMON OR SYSFS_NEC"
    by (simp add: sysfs_defs)
  have c: "(SYSFS_XBOX_DVD OR SYSFS_IMON OR SYSFS_NEC) AND SYSFS_XBOX_DVD \<noteq> 0"
    "SYSFS_NEC AND SYSFS_XBOX_DVD = 0"
    by (simp_all add: sysfs_defs)
  have n: "\<not> bit (SYSFS_IMON OR SYSFS_NEC :: sysfs_protocols) 16"
    by (simp add: sysfs_defs bit_or_iff bit_push_bit_iff)
  from load_bpf_for_unsupported_xbox_only
         [of "SYSFS_XBOX_DVD OR SYSFS_IMON OR SYSFS_NEC" SYSFS_NEC initial_globals] b e c n
  show ?thesis by (simp add: initial_globals_def add_bpf_protocol_def)
qed

section \<open>Properties of device discovery\<close>

text \<open>
  C9, as the specification states it, fails in its first part: with the entries \<^verbatim>\<open>rc0\<close> and
  \<^verbatim>\<open>rc1\<close> in \<^verbatim>\<open>/sys/class/rc/\<close>, \<^verbatim>\<open>find_device\<close> without a name does not return the first
  entry alone: it returns the list of both (\<^verbatim>\<open>return names\<close>), which its caller
  \<^verbatim>\<open>show_sysfs_attribs\<close> walks to the end.
\<close>

theorem find_device_all_entries_counterexample:
  "find_device
     \<lparr>fs_dir = map_of [(''/sys/class/rc/'', [''.'', ''..'', ''rc0'', ''rc1''])],
      fs_file = Map.empty, fs_mode = Map.empty, fs_wopen = (\<lambda>p. 0), fs_fclose = (\<lambda>p. 0),
      fs_written = Map.empty, fs_perror = (\<lambda>e. e)\<rparr> None =
     Inr [''/sys/class/rc/rc0/'', ''/sys/class/rc/rc1/''] \<and>
   find_device
     \<lparr>fs_dir = map_of [(''/sys/class/rc/'', [''.'', ''..'', ''rc0'', ''rc1''])],
      fs_file = Map.empty, fs_mode = Map.empty, fs_wopen = (\<lambda>p. 0), fs_fclose = (\<lambda>p. 0),
      fs_written = Map.empty, fs_perror = (\<lambda>e. e)\<rparr> None \<noteq>
     Inr [''/sys/class/rc/rc0/'']"
  by (simp add: find_device_def seek_sysfs_dir_def strncmp_prefix_def)

text \<open>
  C9, amended.  Let the entries of \<^verbatim>\<open>/sys/class/rc/\<close> whose names begin with \<^verbatim>\<open>rc\<close> be listed
  in directory order.  Without a name, \<^verbatim>\<open>find_device\<close> returns the list of the paths of
  all of them, whose head is the first of them.  With a name, it returns the single path
  of the entry whose name equals the given one, and the ``Not found device'' error when
  no listed entry does.  When nothing is listed (or the directory cannot be opened) the
  result is the ``No devices found'' error.
\<close>

theorem find_device_result:
  "(fs_dir fs ''/sys/class/rc/'' = None \<longrightarrow> find_device fs name = Inl No_devices_found) \<and>
   (fs_dir fs ''/sys/class/rc/'' = Some entries \<longrightarrow>
      find_device fs None =
        (case filter (\<lambda>d. strncmp_prefix d ''rc'') entries of
           [] \<Rightarrow> Inl No_devices_found
         | d # ds \<Rightarrow> Inr ((''/sys/class/rc/'' @ d @ ''/'') #
                          map (\<lambda>d. ''/sys/class/rc/'' @ d @ ''/'') ds)) \<and>
      find_device fs (Some nm) =
        (if filter (\<lambda>d. strncmp_prefix d ''rc'') entries = [] then Inl No_devices_found
         else if nm \<in> set (filter (\<lambda>d. strncmp_prefix d ''rc'') entries)
              then Inr [''/sys/class/rc/'' @ nm @ ''/'']
              else Inl (Not_found_device nm)))"
proof (intro conjI impI)
  assume "fs_dir fs ''/sys/class/rc/'' = None"
  then show "find_device fs name = Inl No_devices_found"
    by (simp add: find_device_def seek_sysfs_dir_def)
next
  assume e: "fs_dir fs ''/sys/class/rc/'' = Some entries"
  let ?rcs = "filter (\<lambda>d. strncmp_prefix d ''rc'') entries"
  from e have s: "seek_sysfs_dir fs ''/sys/class/rc/'' (Some ''rc'') =
      map (\<lambda>d. ''/sys/class/rc/'' @ d @ ''/'') ?rcs"
    by (simp add: seek_sysfs_dir_def)
  show "find_device fs None =
        (case ?rcs of
           [] \<Rightarrow> Inl No_devices_found
         | d # ds \<Rightarrow> Inr ((''/sys/class/rc/'' @ d @ ''/'') #
                          map (\<lambda>d. ''/sys/class/rc/'' @ d @ ''/'') ds))"
    by (simp add: find_device_def s Let_def split: list.splits)
  show "find_device fs (Some nm) =
        (if ?rcs = [] then Inl No_devices_found
         else if nm \<in> set ?rcs then Inr [''/sys/class/rc/'' @ nm @ ''/'']
              else Inl (Not_found_device nm))"
    using find_name_map [of "''/sys/class/rc/''" nm ?rcs]
    by (simp add: find_device_def s Let_def del: set_filter)
qed

theorem find_device_result_witness:
  "find_device
     \<lparr>fs_dir = map_of [(''/sys/class/rc/'', [''.'', ''..'', ''rc1'', ''lirc0'', ''rc0''])],
      fs_file = Map.empty, fs_mode = Map.empty, fs_wopen = (\<lambda>p. 0), fs_fclose = (\<lambda>p. 0),
      fs_written = Map.empty, fs_perror = (\<lambda>e. e)\<rparr> None =
     Inr [''/sys/class/rc/rc1/'', ''/sys/class/rc/rc0/''] \<and>
   find_device
     \<lparr>fs_dir = map_of [(''/sys/class/rc/'', [''.'', ''..'', ''rc1'', ''lirc0'', ''rc0''])],
      fs_file = Map.empty, fs_mode = Map.empty, fs_wopen = (\<lambda>p. 0), fs_fclose = (\<lambda>p. 0),
      fs_written = Map.empty, fs_perror = (\<lambda>e. e)\<rparr> (Some ''rc0'') =
     Inr [''/sys/class/rc/rc0/''] \<and>
   find_device
     \<lparr>fs_dir = map_of [(''/sys/class/rc/'', [''.'', ''..'', ''rc1'', ''lirc0'', ''rc0''])],
      fs_file = Map.empty, fs_mode = Map.empty, fs_wopen = (\<lambda>p. 0), fs_fclose = (\<lambda>p. 0),
      fs_written = Map.empty, fs_perror = (\<lambda>e. e)\<rparr> (Some ''rc'') =
     Inl (Not_found_device ''rc'')"
proof -
  let ?fs = "\<lparr>fs_dir = map_of [(''/sys/class/rc/'', [''.'', ''..'', ''rc1'', ''lirc0'', ''rc0''])],
      fs_file = Map.empty, fs_mode = Map.empty, fs_wopen = (\<lambda>p. 0 :: int),
      fs_fclose = (\<lambda>p. 0 :: int), fs_written = Map.empty,
      fs_perror = (\<lambda>e. e)\<rparr>"
  have d: "fs_dir ?fs ''/sys/class/rc/'' = Some [''.'', ''..'', ''rc1'', ''lirc0'', ''rc0'']"
    by simp
  have f: "filter (\<lambda>d. strncmp_prefix d ''rc'') [''.'', ''..'', ''rc1'', ''lirc0'', ''rc0''] =
      [''rc1'', ''rc0'']"
    by (simp add: strncmp_prefix_def)
  from find_device_result [of ?fs _ "[''.'', ''..'', ''rc1'', ''lirc0'', ''rc0'']" "''rc0''"]
       find_device_result [of ?fs _ "[''.'', ''..'', ''rc1'', ''lirc0'', ''rc0'']" "''rc''"] d
  show ?thesis unfolding f by simp
qed

section \<open>Properties of uevent parsing\<close>

lemma fgets_line:
  assumes "newline \<notin> set l" "length l < 4095"
  shows "fgets 4096 (l @ newline # rest) = Some (l @ [newline], rest)"
proof -
  have "takeWhile (\<lambda>c. c \<noteq> newline) (l @ newline # rest) = l"
    using assms(1) by (induction l) auto
  moreover from assms(2) have "min (4096 - 1) (Suc (length l)) = Suc (length l)" by simp
  ultimately show ?thesis by (simp add: fgets_def Let_def del: One_nat_def)
qed

lemma strtok_Nil: "strtok delim [] = None"
  by (simp add: strtok_def)

lemma strtok_token:
  assumes "t \<noteq> []" "\<forall>c \<in> set t. c \<notin> set delim" "d \<in> set delim"
  shows "strtok delim (t @ d # r) = Some (t, r)"
proof -
  from assms(1) obtain x xs where t: "t = x # xs" by (cases t) auto
  with assms(2) have "dropWhile (\<lambda>c. c \<in> set delim) (t @ d # r) = t @ d # r" by simp
  moreover have "takeWhile (\<lambda>c. c \<notin> set delim) (t @ d # r) = t"
    using assms(2,3) by (induction t) auto
  moreover have "dropWhile (\<lambda>c. c \<notin> set delim) (t @ d # r) = d # r"
    using assms(2,3) by (induction t) auto
  ultimately show ?thesis using t by (simp add: strtok_def Let_def)
qed

lemma strtok_whole:
  assumes "t \<noteq> []" "\<forall>c \<in> set t. c \<notin> set delim"
  shows "strtok delim t = Some (t, [])"
proof -
  from assms(1) obtain x xs where t: "t = x # xs" by (cases t) auto
  with assms(2) have "dropWhile (\<lambda>c. c \<in> set delim) t = t" by simp
  moreover have "takeWhile (\<lambda>c. c \<notin> set delim) t = t"
    using assms(2) by (induction t) auto
  moreover have "dropWhile (\<lambda>c. c \<notin> set delim) t = []"
    using assms(2) by (induction t) auto
  ultimately show ?thesis using t by (simp add: strtok_def Let_def)
qed

lemma newline_not_equals: "newline \<noteq> CHR ''=''"
  by (simp add: newline_def)

lemma uevent_lines_wf:
  assumes "wf_uevent kv"
  shows "uevent_lines (uevent_line kv @ rest) =
           (case uevent_lines rest of None \<Rightarrow> None | Some us \<Rightarrow> Some (kv # us))"
proof -
  obtain key val where kv: "kv = (key, val)" by (cases kv)
  from assms kv have k: "key \<noteq> []" "CHR ''='' \<notin> set key" "newline \<notin> set key"
    and v: "val \<noteq> []" "newline \<notin> set val"
    and len: "length (key @ ''='' @ val) < 4095"
    by (auto simp: wf_uevent_def uevent_line_def)
  have l: "uevent_line (key, val) @ rest = (key @ ''='' @ val) @ newline # rest"
    by (simp add: uevent_line_def)
  have "newline \<notin> set (key @ ''='' @ val)" using k v newline_not_equals by auto
  from fgets_line [OF this len]
  have f: "fgets 4096 (uevent_line (key, val) @ rest) =
      Some ((key @ ''='' @ val) @ [newline], rest)"
    unfolding l .
  have s1: "strtok ''='' ((key @ ''='' @ val) @ [newline]) = Some (key, val @ [newline])"
    using strtok_token [of key "''=''" "CHR ''=''" "val @ [newline]"] k by auto
  have s2: "strtok [newline] (val @ [newline]) = Some (val, [])"
    using strtok_token [of val "[newline]" newline "[]"] v by auto
  show ?thesis unfolding kv
    by (subst uevent_lines.simps) (simp only: f s1 s2 option.case prod.case)
qed

lemma uevent_lines_good:
  "\<forall>kv \<in> set kvs. wf_uevent kv \<Longrightarrow>
   uevent_lines (concat (map uevent_line kvs) @ rest) =
     (case uevent_lines rest of None \<Rightarrow> None | Some us \<Rightarrow> Some (kvs @ us))"
  by (induction kvs) (auto simp: uevent_lines_wf split: option.splits)

lemma uevent_lines_Nil: "uevent_lines [] = Some []"
  by (subst uevent_lines.simps) (simp add: fgets_def)

lemma uevent_lines_bad:
  assumes "CHR ''='' \<notin> set bad" "newline \<notin> set bad" "length bad < 4095"
  shows "uevent_lines (bad @ newline # rest) = None"
proof -
  from fgets_line [OF assms(2,3)]
  have f: "fgets 4096 (bad @ newline # rest) = Some (bad @ [newline], rest)" .
  have "strtok ''='' (bad @ [newline]) = Some (bad @ [newline], [])"
    using assms(1) newline_not_equals by (intro strtok_whole) auto
  then show ?thesis
    by (subst uevent_lines.simps) (simp add: f strtok_Nil)
qed

lemma uevent_devname_filter:
  "uevent_devname (filter (\<lambda>kv. fst kv = ''DEVNAME'') us) = uevent_devname us"
  by (induction us) auto

lemma uevent_names_filter:
  "uevent_names (filter (\<lambda>kv. fst kv \<in> {''DRV_NAME'', ''DEV_NAME'', ''NAME''}) us) rc_dev =
   uevent_names us rc_dev"
  by (induction us arbitrary: rc_dev) auto

text \<open>
  C8, as the specification states it, fails: in a uevent file whose second line \<^verbatim>\<open>FOO\<close> has
  no \<^verbatim>\<open>=\<close>, the line is not skipped; \<^verbatim>\<open>read_sysfs_uevents\<close> prints ``Error on uevent
  information'' and returns \<^verbatim>\<open>NULL\<close>, also dropping the pair of the well-formed first line.
\<close>

theorem uevent_line_without_equals_counterexample:
  "read_sysfs_uevents
     \<lparr>fs_dir = Map.empty,
      fs_file = map_of [(''/sys/class/rc/rc0/uevent'',
        ''NAME=rc-rc5-tv'' @ [newline] @ ''FOO'' @ [newline] @ ''DRV_NAME=saa7134'' @ [newline])],
      fs_mode = Map.empty, fs_wopen = (\<lambda>p. 0), fs_fclose = (\<lambda>p. 0),
      fs_written = Map.empty, fs_perror = (\<lambda>e. e)\<rparr>
     ''/sys/class/rc/rc0/'' = None"
  by code_simp

text \<open>
  C8, amended.  A file of well-formed lines \<^verbatim>\<open>KEY=value\<close> (key and value not empty) parses
  to the list of its (key, value) pairs, in order.  If, after such lines, a line without
  any \<^verbatim>\<open>=\<close> follows, the parse fails as a whole (\<^verbatim>\<open>NULL\<close>), whatever comes after it.  The
  consumers in \<^verbatim>\<open>get_attribs\<close> ignore every pair whose key is not the one they look for.
\<close>

theorem read_sysfs_uevents_lines:
  assumes "\<forall>kv \<in> set kvs. wf_uevent kv"
  shows "(fs_file fs (dname @ ''uevent'') = Some (concat (map uevent_line kvs)) \<longrightarrow>
            read_sysfs_uevents fs dname = Some kvs) \<and>
         (fs_file fs (dname @ ''uevent'') =
              Some (concat (map uevent_line kvs) @ bad @ newline # rest) \<and>
            CHR ''='' \<notin> set bad \<and> newline \<notin> set bad \<and> length bad < 4095 \<longrightarrow>
            read_sysfs_uevents fs dname = None) \<and>
         uevent_devname (filter (\<lambda>kv. fst kv = ''DEVNAME'') kvs) = uevent_devname kvs \<and>
         uevent_names (filter (\<lambda>kv. fst kv \<in> {''DRV_NAME'', ''DEV_NAME'', ''NAME''}) kvs) rc_dev =
           uevent_names kvs rc_dev"
proof (intro conjI impI)
  assume "fs_file fs (dname @ ''uevent'') = Some (concat (map uevent_line kvs))"
  then show "read_sysfs_uevents fs dname = Some kvs"
    using uevent_lines_good [OF assms, of "[]"]
    by (simp add: read_sysfs_uevents_def uevent_lines_Nil)
next
  assume a: "fs_file fs (dname @ ''uevent'') =
      Some (concat (map uevent_line kvs) @ bad @ newline # rest) \<and>
    CHR ''='' \<notin> set bad \<and> newline \<notin> set bad \<and> length bad < 4095"
  then have "uevent_lines (bad @ newline # rest) = None" by (intro uevent_lines_bad) simp_all
  with a show "read_sysfs_uevents fs dname = None"
    using uevent_lines_good [OF assms, of "bad @ newline # rest"]
    by (simp add: read_sysfs_uevents_def)
next
  show "uevent_devname (filter (\<lambda>kv. fst kv = ''DEVNAME'') kvs) = uevent_devname kvs"
    by (rule uevent_devname_filter)
next
  show "uevent_names (filter (\<lambda>kv. fst kv \<in> {''DRV_NAME'', ''DEV_NAME'', ''NAME''}) kvs) rc_dev =
           uevent_names kvs rc_dev"
    by (rule uevent_names_filter)
qed

theorem read_sysfs_uevents_lines_witness:
  "wf_uevent (''MAJOR'', ''13'') \<and> wf_uevent (''DEVNAME'', ''input/event3'') \<and>
   read_sysfs_uevents
     \<lparr>fs_dir = Map.empty,
      fs_file = map_of [(''/sys/class/rc/rc0/uevent'',
        ''MAJOR=13'' @ [newline] @ ''DEVNAME=input/event3'' @ [newline])],
      fs_mode = Map.empty, fs_wopen = (\<lambda>p. 0), fs_fclose = (\<lambda>p. 0),
      fs_written = Map.empty, fs_perror = (\<lambda>e. e)\<rparr>
     ''/sys/class/rc/rc0/'' = Some [(''MAJOR'', ''13''), (''DEVNAME'', ''input/event3'')] \<and>
   read_sysfs_uevents
     \<lparr>fs_dir = Map.empty,
      fs_file = map_of [(''/sys/class/rc/rc0/uevent'',
        ''MAJOR=13'' @ [newline] @ ''DEVNAME=input/event3'' @ [newline] @
        ''FOO'' @ [newline] @ ''NAME=x'' @ [newline])],
      fs_mode = Map.empty, fs_wopen = (\<lambda>p. 0), fs_fclose = (\<lambda>p. 0),
      fs_written = Map.empty, fs_perror = (\<lambda>e. e)\<rparr>
     ''/sys/class/rc/rc0/'' = None \<and>
   uevent_devname [(''MAJOR'', ''13''), (''DEVNAME'', ''input/event3'')] =
     Some ''/dev/input/event3''"
proof -
  let ?kvs = "[(''MAJOR'', ''13''), (''DEVNAME'', ''input/event3'')]"
  let ?good = "''MAJOR=13'' @ [newline] @ ''DEVNAME=input/event3'' @ [newline]"
  let ?rest = "''NAME=x'' @ [newline]"
  let ?fs1 = "\<lparr>fs_dir = Map.empty,
      fs_file = map_of [(''/sys/class/rc/rc0/uevent'', ?good)],
      fs_mode = Map.empty, fs_wopen = (\<lambda>p. 0 :: int), fs_fclose = (\<lambda>p. 0 :: int),
      fs_written = Map.empty, fs_perror = (\<lambda>e. e)\<rparr>"
  let ?fs2 = "\<lparr>fs_dir = Map.empty,
      fs_file = map_of [(''/sys/class/rc/rc0/uevent'', ?good @ ''FOO'' @ [newline] @ ?rest)],
      fs_mode = Map.empty, fs_wopen = (\<lambda>p. 0 :: int), fs_fclose = (\<lambda>p. 0 :: int),
      fs_written = Map.empty, fs_perror = (\<lambda>e. e)\<rparr>"
  have w: "\<forall>kv \<in> set ?kvs. wf_uevent kv"
    by (simp add: wf_uevent_def uevent_line_def newline_def)
  have c: "concat (map uevent_line ?kvs) = ?good" by (simp add: uevent_line_def)
  have b: "CHR ''='' \<notin> set ''FOO'' \<and> newline \<notin> set ''FOO'' \<and> length ''FOO'' < 4095"
    by (simp add: newline_def)
  from read_sysfs_uevents_lines [OF w, of ?fs1 "''/sys/class/rc/rc0/''"]
       read_sysfs_uevents_lines [OF w, of ?fs2 "''/sys/class/rc/rc0/''" "''FOO''" ?rest] w b
  show ?thesis unfolding c by simp
qed

section \<open>Properties of the protocol negotiator: reading\<close>

lemma sw_decoder_node_current:
  "rc_current (sw_decoder_node fs name es rc_dev) = rc_current rc_dev"
  by (induction es arbitrary: rc_dev) (auto simp: Let_def split: option.splits)

lemma get_attribs_sw_decoder_sysfs:
  "get_attribs sw_decoder_sysfs ''/sys/class/rc/rc0/'' =
     Some (0, \<lparr>rc_sysfs_name = ''/sys/class/rc/rc0/'',
               rc_input_name = Some ''/dev/input/event3'', rc_lirc_name = None,
               rc_drv_name = Some ''saa7134'', rc_dev_name = None,
               rc_keytable_name = Some ''rc-rc5-tv'', rc_version = VERSION_1,
               rc_type = SOFTWARE_DECODER, rc_supported = SYSFS_RC5 OR SYSFS_NEC,
               rc_current = 0\<rparr>)"
  by code_simp

lemma sw_decoder_sysfs_enabled:
  "v1_get_sw_enabled_protocol sw_decoder_sysfs ''/sys/class/rc/rc0/rc5_decoder'' = 1"
  by code_simp

text \<open>
  C1 does not hold of the code.  For the device of \<open>sw_decoder_sysfs\<close>, whose
  \<^verbatim>\<open>rc5_decoder/enabled\<close> file reads 1, \<^verbatim>\<open>get_attribs\<close> succeeds with both decoders in
  \<open>supported\<close> and nothing in \<open>current\<close>, although \<^verbatim>\<open>v1_get_sw_enabled_protocol\<close> reports the
  rc-5 decoder enabled: the branch for an enabled decoder sets the bit in \<open>supported\<close> a
  second time.  In general the loop over a software decoder node never changes \<open>current\<close>.
\<close>

theorem get_attribs_sw_enabled_not_current:
  "v1_get_sw_enabled_protocol sw_decoder_sysfs ''/sys/class/rc/rc0/rc5_decoder'' = 1 \<and>
   map_option (\<lambda>r. (fst r, rc_version (snd r), rc_type (snd r), rc_supported (snd r),
                     rc_current (snd r)))
     (get_attribs sw_decoder_sysfs ''/sys/class/rc/rc0/'') =
     Some (0, VERSION_1, SOFTWARE_DECODER, SYSFS_RC5 OR SYSFS_NEC, 0) \<and>
   SYSFS_RC5 \<noteq> 0 \<and>
   rc_current (sw_decoder_node fs name es rc_dev) = rc_current rc_dev"
  by (simp add: sw_decoder_sysfs_enabled get_attribs_sw_decoder_sysfs sw_decoder_node_current
      SYSFS_RC5_def)

section \<open>Properties of the keytable store\<close>































section \<open>Properties of the protocol negotiator: writing\<close>

lemma and_not_disjoint:
  fixes m b b' :: "'a::len word"
  assumes "b AND b' = 0"
  shows "(m AND NOT b) AND b' = m AND b'"
proof (rule bit_eqI)
  fix n
  from assms have "\<not> (bit b n \<and> bit b' n)"
    by (metis bit_and_iff bit_0_eq bot_apply bot_bool_def)
  then show "bit ((m AND NOT b) AND b') n = bit (m AND b') n"
    by (auto simp: bit_and_iff bit_not_iff dest: bit_imp_possible_bit)
qed

text \<open>
  Since the bits of the table are pairwise disjoint, clearing the printed bits from the
  working copy does not change which later entries are printed.
\<close>

lemma write_loop_filter:
  "disjoint_bits es \<Longrightarrow>
   write_loop m fmt es =
     concat (map (\<lambda>e. fprintf_s fmt (pme_name e))
       (filter (\<lambda>e. m AND pme_sysfs_protocol e \<noteq> 0) es))"
proof (induction es arbitrary: m)
  case Nil
  show ?case by simp
next
  case (Cons e es)
  have "filter (\<lambda>e'. (m AND NOT (pme_sysfs_protocol e)) AND pme_sysfs_protocol e' \<noteq> 0) es =
        filter (\<lambda>e'. m AND pme_sysfs_protocol e' \<noteq> 0) es"
    using Cons.prems by (intro filter_cong refl) (simp add: and_not_disjoint)
  with Cons show ?case by simp
qed

lemma catalog_disjoint: "disjoint_bits protocol_map"
  by (simp add: protocol_map_def pme_def sysfs_defs)

lemma fprintf_s_plus: "fprintf_s (''+%s'' @ [newline]) n = ''+'' @ n @ [newline]"
  by simp

lemma fprintf_s_space: "fprintf_s ''%s '' n = n @ '' ''"
  by simp

lemma write_sysfs_protocols_plus:
  "write_sysfs_protocols m (''+%s'' @ [newline]) =
     concat (map (\<lambda>e. ''+'' @ pme_name e @ [newline])
       (filter (\<lambda>e. m AND pme_sysfs_protocol e \<noteq> 0) protocol_map))"
  unfolding write_sysfs_protocols_def write_loop_filter [OF catalog_disjoint] fprintf_s_plus ..

lemma write_sysfs_protocols_space:
  "write_sysfs_protocols m ''%s '' =
     concat (map (\<lambda>e. pme_name e @ '' '')
       (filter (\<lambda>e. m AND pme_sysfs_protocol e \<noteq> 0) protocol_map))"
  unfolding write_sysfs_protocols_def write_loop_filter [OF catalog_disjoint] fprintf_s_space ..

lemma v1_set_sw_enabled_protocol_fs:
  "snd (v1_set_sw_enabled_protocol rc_dev d en fs) =
     (if fs_wopen fs (rc_sysfs_name rc_dev @ d @ ''/enabled'') \<noteq> 0 then fs
      else fwrite_file fs (rc_sysfs_name rc_dev @ d @ ''/enabled'')
             (if en \<noteq> 0 then ''1'' else ''0''))"
  by (simp add: v1_set_sw_enabled_protocol_def Let_def)

lemma set_sw_loop_written:
  assumes "\<forall>e' \<in> set es. pme_sysfs1_name e' = Some d \<longrightarrow> pme_sysfs_protocol e' = b"
    and "fs_wopen fs (rc_sysfs_name rc_dev @ d @ ''/enabled'') = 0"
  shows "fs_wopen (snd (set_sw_loop es rc_dev r fs)) = fs_wopen fs \<and>
         fs_written (snd (set_sw_loop es rc_dev r fs)) (rc_sysfs_name rc_dev @ d @ ''/enabled'') =
           (if (\<exists>e' \<in> set es. pme_sysfs1_name e' = Some d) \<and> rc_supported rc_dev AND b \<noteq> 0
            then Some (if rc_current rc_dev AND b \<noteq> 0 then ''1'' else ''0'')
            else fs_written fs (rc_sysfs_name rc_dev @ d @ ''/enabled''))"
  using assms
proof (induction es arbitrary: r fs)
  case Nil
  show ?case by simp
next
  case (Cons e es)
  let ?p = "rc_sysfs_name rc_dev @ d @ ''/enabled''"
  from Cons.prems(1) have rest: "\<forall>e' \<in> set es. pme_sysfs1_name e' = Some d \<longrightarrow> pme_sysfs_protocol e' = b"
    by simp
  show ?case
  proof (cases "pme_sysfs1_name e")
    case None
    with Cons.IH [OF rest Cons.prems(2)] show ?thesis by simp
  next
    case (Some d')
    show ?thesis
    proof (cases "rc_supported rc_dev AND pme_sysfs_protocol e = 0")
      case True
      from Cons.prems(1) Some True have "d' = d \<longrightarrow> rc_supported rc_dev AND b = 0" by auto
      with Cons.IH [OF rest Cons.prems(2)] Some True show ?thesis by auto
    next
      case False
      obtain r1 fs1 where w: "v1_set_sw_enabled_protocol rc_dev d'
          (rc_current rc_dev AND pme_sysfs_protocol e) fs = (r1, fs1)"
        by (cases "v1_set_sw_enabled_protocol rc_dev d'
          (rc_current rc_dev AND pme_sysfs_protocol e) fs")
      from v1_set_sw_enabled_protocol_fs [of rc_dev d' "rc_current rc_dev AND pme_sysfs_protocol e" fs] w
      have fs1: "fs1 =
          (if fs_wopen fs (rc_sysfs_name rc_dev @ d' @ ''/enabled'') \<noteq> 0 then fs
           else fwrite_file fs (rc_sysfs_name rc_dev @ d' @ ''/enabled'')
                  (if rc_current rc_dev AND pme_sysfs_protocol e \<noteq> 0 then ''1'' else ''0''))"
        by simp
      then have o: "fs_wopen fs1 = fs_wopen fs" by (simp add: fwrite_file_def)
      with Cons.prems(2) have o1: "fs_wopen fs1 ?p = 0" by simp
      from Cons.IH [OF rest o1, of "r + r1"]
      have ih: "fs_wopen (snd (set_sw_loop es rc_dev (r + r1) fs1)) = fs_wopen fs1"
        "fs_written (snd (set_sw_loop es rc_dev (r + r1) fs1)) ?p =
           (if (\<exists>e' \<in> set es. pme_sysfs1_name e' = Some d) \<and> rc_supported rc_dev AND b \<noteq> 0
            then Some (if rc_current rc_dev AND b \<noteq> 0 then ''1'' else ''0'')
            else fs_written fs1 ?p)"
        by simp_all
      have step: "set_sw_loop (e # es) rc_dev r fs = set_sw_loop es rc_dev (r + r1) fs1"
        using Some False w by simp
      show ?thesis
      proof (cases "d' = d")
        case True
        with Cons.prems(1) Some have b: "pme_sysfs_protocol e = b" by simp
        with True fs1 Cons.prems(2) have "fs_written fs1 ?p =
            Some (if rc_current rc_dev AND b \<noteq> 0 then ''1'' else ''0'')"
          by (simp add: fwrite_file_def)
        with ih o step True Some False b show ?thesis by auto
      next
        case False
        then have "rc_sysfs_name rc_dev @ d' @ ''/enabled'' \<noteq> ?p" by simp
        with fs1 have "fs_written fs1 ?p = fs_written fs ?p" by (simp add: fwrite_file_def)
        with ih o step False Some show ?thesis by auto
      qed
    qed
  qed
qed

lemma catalog_sysfs1_names:
  "\<forall>e \<in> set protocol_map. \<forall>e' \<in> set protocol_map.
     pme_sysfs1_name e \<noteq> None \<and> pme_sysfs1_name e' = pme_sysfs1_name e \<longrightarrow>
     pme_sysfs_protocol e' = pme_sysfs_protocol e"
  by code_simp

text \<open>
  C3.  For a device of the second generation \<^verbatim>\<open>set_proto\<close> leaves the target mask as it
  is (no intersection with \<open>supported\<close>); when \<^verbatim>\<open>stat\<close> shows no write permission bit on the
  \<^verbatim>\<open>protocols\<close> node it returns \<^verbatim>\<open>EINVAL\<close> and the file system is untouched; otherwise, the
  node opened, the file receives \<^verbatim>\<open>none\<close> and one line \<^verbatim>\<open>+name\<close> for each protocol of the
  catalog whose bit is set in the target mask, in catalog order.  For a device of the
  first generation the target mask is first intersected with \<open>supported\<close>; then, for a
  software decoder, the \<^verbatim>\<open>enabled\<close> node of every supported protocol that has one (and
  can be opened) receives \<^verbatim>\<open>1\<close> or \<^verbatim>\<open>0\<close> according to its bit of the narrowed mask, and
  for any other decoder the \<^verbatim>\<open>protocol\<close> node receives one line of the names of the
  narrowed mask, each followed by a space.
\<close>

theorem set_proto_asymmetry:
  "(rc_version rc_dev = VERSION_2 \<longrightarrow>
      fst (snd (set_proto rc_dev fs)) = rc_dev \<and>
      ((\<exists>st_mode. fs_mode fs (rc_sysfs_name rc_dev @ ''/protocols'') = Some st_mode \<and>
                  st_mode AND 146 = 0) \<longrightarrow>
         set_proto rc_dev fs = (EINVAL, rc_dev, fs)) \<and>
      (\<not> (\<exists>st_mode. fs_mode fs (rc_sysfs_name rc_dev @ ''/protocols'') = Some st_mode \<and>
                    st_mode AND 146 = 0) \<and>
       fs_wopen fs (rc_sysfs_name rc_dev @ ''/protocols'') = 0 \<longrightarrow>
         fs_written (snd (snd (set_proto rc_dev fs))) (rc_sysfs_name rc_dev @ ''/protocols'') =
           Some (''none'' @ [newline] @
                 concat (map (\<lambda>e. ''+'' @ pme_name e @ [newline])
                   (filter (\<lambda>e. rc_current rc_dev AND pme_sysfs_protocol e \<noteq> 0)
                      protocol_map))))) \<and>
   (rc_version rc_dev = VERSION_1 \<longrightarrow>
      rc_current (fst (snd (set_proto rc_dev fs))) = rc_current rc_dev AND rc_supported rc_dev \<and>
      (rc_type rc_dev = SOFTWARE_DECODER \<longrightarrow>
         (\<forall>e \<in> set protocol_map. \<forall>d.
            pme_sysfs1_name e = Some d \<and> rc_supported rc_dev AND pme_sysfs_protocol e \<noteq> 0 \<and>
            fs_wopen fs (rc_sysfs_name rc_dev @ d @ ''/enabled'') = 0 \<longrightarrow>
            fs_written (snd (snd (set_proto rc_dev fs)))
                (rc_sysfs_name rc_dev @ d @ ''/enabled'') =
              Some (if (rc_current rc_dev AND rc_supported rc_dev) AND pme_sysfs_protocol e \<noteq> 0
                    then ''1'' else ''0''))) \<and>
      (rc_type rc_dev \<noteq> SOFTWARE_DECODER \<and>
       fs_wopen fs (rc_sysfs_name rc_dev @ ''/protocol'') = 0 \<longrightarrow>
         fs_written (snd (snd (set_proto rc_dev fs))) (rc_sysfs_name rc_dev @ ''/protocol'') =
           Some (concat (map (\<lambda>e. pme_name e @ '' '')
                   (filter (\<lambda>e. (rc_current rc_dev AND rc_supported rc_dev) AND
                                  pme_sysfs_protocol e \<noteq> 0) protocol_map)) @ [newline])))"
proof (intro conjI impI ballI allI)
  assume "rc_version rc_dev = VERSION_2"
  then show "fst (snd (set_proto rc_dev fs)) = rc_dev"
    by (simp add: set_proto_def split: prod.splits)
next
  assume "rc_version rc_dev = VERSION_2"
    and "\<exists>st_mode. fs_mode fs (rc_sysfs_name rc_dev @ ''/protocols'') = Some st_mode \<and>
                  st_mode AND 146 = 0"
  then show "set_proto rc_dev fs = (EINVAL, rc_dev, fs)"
    by (auto simp: set_proto_def v2_set_protocols_def Let_def)
next
  assume v: "rc_version rc_dev = VERSION_2"
    and a: "\<not> (\<exists>st_mode. fs_mode fs (rc_sysfs_name rc_dev @ ''/protocols'') = Some st_mode \<and>
                    st_mode AND 146 = 0) \<and>
       fs_wopen fs (rc_sysfs_name rc_dev @ ''/protocols'') = 0"
  from a have n: "\<not> (case fs_mode fs (rc_sysfs_name rc_dev @ ''/protocols'') of
                  None \<Rightarrow> False | Some st_mode \<Rightarrow> st_mode AND 146 = 0)"
    by (auto split: option.splits)
  from a have o: "fs_wopen fs (rc_sysfs_name rc_dev @ ''/protocols'') = 0" by simp
  have "snd (v2_set_protocols rc_dev fs) =
      fwrite_file fs (rc_sysfs_name rc_dev @ ''/protocols'')
        (''none'' @ [newline] @ write_sysfs_protocols (rc_current rc_dev) (''+%s'' @ [newline]))"
    unfolding v2_set_protocols_def Let_def using n o by simp
  then have "fs_written (snd (v2_set_protocols rc_dev fs)) (rc_sysfs_name rc_dev @ ''/protocols'') =
      Some (''none'' @ [newline] @
            write_sysfs_protocols (rc_current rc_dev) (''+%s'' @ [newline]))"
    by (simp add: fwrite_file_def)
  moreover have "snd (snd (set_proto rc_dev fs)) = snd (v2_set_protocols rc_dev fs)"
    using v by (simp add: set_proto_def split: prod.splits)
  ultimately show "fs_written (snd (snd (set_proto rc_dev fs)))
        (rc_sysfs_name rc_dev @ ''/protocols'') =
      Some (''none'' @ [newline] @
            concat (map (\<lambda>e. ''+'' @ pme_name e @ [newline])
              (filter (\<lambda>e. rc_current rc_dev AND pme_sysfs_protocol e \<noteq> 0)
                 protocol_map)))"
    by (simp only: write_sysfs_protocols_plus)
next
  assume "rc_version rc_dev = VERSION_1"
  then show "rc_current (fst (snd (set_proto rc_dev fs))) =
      rc_current rc_dev AND rc_supported rc_dev"
    by (simp add: set_proto_def Let_def split: prod.splits)
next
  fix e d
  assume v: "rc_version rc_dev = VERSION_1" and t: "rc_type rc_dev = SOFTWARE_DECODER"
    and e: "e \<in> set protocol_map"
    and a: "pme_sysfs1_name e = Some d \<and> rc_supported rc_dev AND pme_sysfs_protocol e \<noteq> 0 \<and>
            fs_wopen fs (rc_sysfs_name rc_dev @ d @ ''/enabled'') = 0"
  let ?rc = "rc_dev\<lparr>rc_current := rc_current rc_dev AND rc_supported rc_dev\<rparr>"
  have u: "\<forall>e' \<in> set protocol_map. pme_sysfs1_name e' = Some d \<longrightarrow>
             pme_sysfs_protocol e' = pme_sysfs_protocol e"
  proof (intro ballI impI)
    fix e'
    assume e': "e' \<in> set protocol_map" and d': "pme_sysfs1_name e' = Some d"
    from catalog_sysfs1_names [rule_format, OF e e'] a d'
    show "pme_sysfs_protocol e' = pme_sysfs_protocol e" by simp
  qed
  from a have o: "fs_wopen fs (rc_sysfs_name ?rc @ d @ ''/enabled'') = 0" by simp
  from e a have ex: "\<exists>e' \<in> set protocol_map. pme_sysfs1_name e' = Some d" by blast
  from a have sup: "rc_supported ?rc AND pme_sysfs_protocol e \<noteq> 0" by simp
  from set_sw_loop_written [OF u o, of 0]
  have "fs_written (snd (set_sw_loop protocol_map ?rc 0 fs))
          (rc_sysfs_name ?rc @ d @ ''/enabled'') =
        (if (\<exists>e' \<in> set protocol_map. pme_sysfs1_name e' = Some d) \<and>
            rc_supported ?rc AND pme_sysfs_protocol e \<noteq> 0
         then Some (if rc_current ?rc AND pme_sysfs_protocol e \<noteq> 0 then ''1'' else ''0'')
         else fs_written fs (rc_sysfs_name ?rc @ d @ ''/enabled''))"
    by (rule conjunct2)
  with ex sup
  have "fs_written (snd (set_sw_loop protocol_map ?rc 0 fs))
          (rc_sysfs_name rc_dev @ d @ ''/enabled'') =
        Some (if (rc_current rc_dev AND rc_supported rc_dev) AND pme_sysfs_protocol e \<noteq> 0
              then ''1'' else ''0'')"
    by (simp del: bex_simps)
  moreover have "snd (snd (set_proto rc_dev fs)) = snd (set_sw_loop protocol_map ?rc 0 fs)"
    using v t by (simp add: set_proto_def Let_def case_prod_beta)
  ultimately show "fs_written (snd (snd (set_proto rc_dev fs)))
                (rc_sysfs_name rc_dev @ d @ ''/enabled'') =
              Some (if (rc_current rc_dev AND rc_supported rc_dev) AND pme_sysfs_protocol e \<noteq> 0
                    then ''1'' else ''0'')"
    by simp
next
  assume v: "rc_version rc_dev = VERSION_1"
    and a: "rc_type rc_dev \<noteq> SOFTWARE_DECODER \<and>
       fs_wopen fs (rc_sysfs_name rc_dev @ ''/protocol'') = 0"
  then show "fs_written (snd (snd (set_proto rc_dev fs))) (rc_sysfs_name rc_dev @ ''/protocol'') =
           Some (concat (map (\<lambda>e. pme_name e @ '' '')
                   (filter (\<lambda>e. (rc_current rc_dev AND rc_supported rc_dev) AND
                                  pme_sysfs_protocol e \<noteq> 0) protocol_map)) @ [newline])"
    by (simp add: set_proto_def v1_set_hw_protocols_def Let_def fwrite_file_def
        write_sysfs_protocols_space case_prod_beta)
qed

lemma filter_catalog_nec:
  "filter (\<lambda>e. SYSFS_NEC AND pme_sysfs_protocol e \<noteq> 0) protocol_map =
     [pme ''nec'' (Some ''/nec_decoder'') SYSFS_NEC]"
  by (simp add: protocol_map_def pme_def sysfs_defs)

lemma filter_catalog_nec_jvc:
  "filter (\<lambda>e. (SYSFS_NEC OR SYSFS_JVC) AND pme_sysfs_protocol e \<noteq> 0) protocol_map =
     [pme ''jvc'' (Some ''/jvc_decoder'') SYSFS_JVC, pme ''nec'' (Some ''/nec_decoder'') SYSFS_NEC]"
  by (simp add: protocol_map_def pme_def sysfs_defs)

lemma requested_narrowed:
  "(SYSFS_NEC OR SYSFS_JVC) AND (SYSFS_RC5 OR SYSFS_NEC) = SYSFS_NEC"
  by (simp add: sysfs_defs)

theorem set_proto_asymmetry_witness:
  "set_proto (requested_rc_device VERSION_2 UNKNOWN_TYPE) (writable_sysfs 292) =
     (EINVAL, requested_rc_device VERSION_2 UNKNOWN_TYPE, writable_sysfs 292) \<and>
   fst (snd (set_proto (requested_rc_device VERSION_2 UNKNOWN_TYPE) (writable_sysfs 420))) =
     requested_rc_device VERSION_2 UNKNOWN_TYPE \<and>
   fs_written (snd (snd (set_proto (requested_rc_device VERSION_2 UNKNOWN_TYPE)
       (writable_sysfs 420)))) ''/sys/class/rc/rc0//protocols'' =
     Some (''none'' @ [newline] @ ''+jvc'' @ [newline] @ ''+nec'' @ [newline]) \<and>
   rc_current (fst (snd (set_proto (requested_rc_device VERSION_1 SOFTWARE_DECODER)
       (writable_sysfs 420)))) = SYSFS_NEC \<and>
   fs_written (snd (snd (set_proto (requested_rc_device VERSION_1 SOFTWARE_DECODER)
       (writable_sysfs 420)))) ''/sys/class/rc/rc0//rc5_decoder/enabled'' = Some ''0'' \<and>
   fs_written (snd (snd (set_proto (requested_rc_device VERSION_1 SOFTWARE_DECODER)
       (writable_sysfs 420)))) ''/sys/class/rc/rc0//nec_decoder/enabled'' = Some ''1'' \<and>
   fs_written (snd (snd (set_proto (requested_rc_device VERSION_1 HARDWARE_DECODER)
       (writable_sysfs 420)))) ''/sys/class/rc/rc0//protocol'' =
     Some (''nec '' @ [newline])"
proof -
  let ?v2 = "requested_rc_device VERSION_2 UNKNOWN_TYPE"
  let ?sw = "requested_rc_device VERSION_1 SOFTWARE_DECODER"
  let ?hw = "requested_rc_device VERSION_1 HARDWARE_DECODER"
  have rc5: "pme ''rc-5'' (Some ''/rc5_decoder'') SYSFS_RC5 \<in> set protocol_map"
    and nec: "pme ''nec'' (Some ''/nec_decoder'') SYSFS_NEC \<in> set protocol_map"
    by (simp_all add: protocol_map_def)
  have bits: "(SYSFS_RC5 OR SYSFS_NEC) AND SYSFS_RC5 \<noteq> 0" "(SYSFS_RC5 OR SYSFS_NEC) AND SYSFS_NEC \<noteq> 0"
    "SYSFS_NEC AND SYSFS_RC5 = 0" "SYSFS_NEC AND SYSFS_NEC \<noteq> 0"
    "(292 :: 32 word) AND 146 = 0" "(420 :: 32 word) AND 146 \<noteq> 0"
    by (simp_all add: sysfs_defs)
  from set_proto_asymmetry [of ?v2 "writable_sysfs 292"] bits
  have a: "set_proto ?v2 (writable_sysfs 292) = (EINVAL, ?v2, writable_sysfs 292)"
    by (simp add: requested_rc_device_def writable_sysfs_def)
  from set_proto_asymmetry [of ?v2 "writable_sysfs 420"] bits
  have b: "fst (snd (set_proto ?v2 (writable_sysfs 420))) = ?v2"
    and c: "fs_written (snd (snd (set_proto ?v2 (writable_sysfs 420))))
        ''/sys/class/rc/rc0//protocols'' =
      Some (''none'' @ [newline] @ ''+jvc'' @ [newline] @ ''+nec'' @ [newline])"
    by (simp_all add: requested_rc_device_def writable_sysfs_def filter_catalog_nec_jvc pme_def)
  from set_proto_asymmetry [of ?sw "writable_sysfs 420"]
  have sw: "rc_current (fst (snd (set_proto ?sw (writable_sysfs 420)))) =
        rc_current ?sw AND rc_supported ?sw"
    and en: "\<forall>e \<in> set protocol_map. \<forall>d.
            pme_sysfs1_name e = Some d \<and> rc_supported ?sw AND pme_sysfs_protocol e \<noteq> 0 \<and>
            fs_wopen (writable_sysfs 420) (rc_sysfs_name ?sw @ d @ ''/enabled'') = 0 \<longrightarrow>
            fs_written (snd (snd (set_proto ?sw (writable_sysfs 420))))
                (rc_sysfs_name ?sw @ d @ ''/enabled'') =
              Some (if (rc_current ?sw AND rc_supported ?sw) AND pme_sysfs_protocol e \<noteq> 0
                    then ''1'' else ''0'')"
    by (simp_all add: requested_rc_device_def)
  from sw have d: "rc_current (fst (snd (set_proto ?sw (writable_sysfs 420)))) = SYSFS_NEC"
    by (simp add: requested_rc_device_def requested_narrowed)
  from en [rule_format, OF rc5, of "''/rc5_decoder''"] bits
  have e: "fs_written (snd (snd (set_proto ?sw (writable_sysfs 420))))
      ''/sys/class/rc/rc0//rc5_decoder/enabled'' = Some ''0''"
    by (simp add: requested_rc_device_def writable_sysfs_def pme_def requested_narrowed)
  from en [rule_format, OF nec, of "''/nec_decoder''"] bits
  have f: "fs_written (snd (snd (set_proto ?sw (writable_sysfs 420))))
      ''/sys/class/rc/rc0//nec_decoder/enabled'' = Some ''1''"
    by (simp add: requested_rc_device_def writable_sysfs_def pme_def requested_narrowed)
  from set_proto_asymmetry [of ?hw "writable_sysfs 420"]
  have g: "fs_written (snd (snd (set_proto ?hw (writable_sysfs 420))))
      ''/sys/class/rc/rc0//protocol'' = Some (''nec '' @ [newline])"
    by (simp add: requested_rc_device_def writable_sysfs_def requested_narrowed
        filter_catalog_nec pme_def)
  from a b c d e f g show ?thesis by simp
qed

end
